theory Spec2Isabelle
  imports Complex_Main "HOL-Library.AList"
begin

section \<open>JavaScript values used by the contact project\<close>

text \<open>
  A JavaScript string is a sequence of UTF-16 code units: \<open>s.length\<close> counts code units
  and \<open>s.charAt(i)\<close> reads one.  Strings are therefore lists of code units (natural numbers
  below 65536); \<open>str\<close> embeds an ASCII literal of the source.

  Numbers that the code uses as counts, identifiers and millisecond time stamps are
  mathematical integers (the safe-integer range of a JavaScript number).  The other
  numbers are IEEE-754 doubles, held as the real numbers they denote: the importance
  score is computed with the rounded operations below, so that the integer written by
  the model is the integer the program writes.  The quotients of the outreach ledger
  (response time, response rates) are kept as exact quotients.
\<close>

type_synonym jsstring = "nat list"

definition str :: "string \<Rightarrow> jsstring" where
  "str s = map of_char s"

text \<open>
  The result of an arithmetic operation on doubles is the exact result rounded to the
  nearest double, a tie going to the even significand: the value is scaled so that its
  significand has 53 bits, rounded to an integer, and scaled back.  The exponent is not
  bounded here, so overflow to \<open>Infinity\<close> and the subnormal numbers are outside the
  model; the scores are far from both.
\<close>

definition round_half_even :: "real \<Rightarrow> int" where
  "round_half_even m =
     (let f = \<lfloor>m\<rfloor>
      in if m - of_int f < 1 / 2 then f
         else if 1 / 2 < m - of_int f then f + 1
         else if even f then f else f + 1)"

definition fl :: "real \<Rightarrow> real" where
  "fl x =
     (if x = 0 then 0
      else (let e = \<lfloor>log 2 \<bar>x\<bar>\<rfloor> - 52
            in sgn x * of_int (round_half_even (\<bar>x\<bar> / 2 powi e)) * 2 powi e))"

text \<open>
  \<open>Math.log\<close> is the natural logarithm as the host computes it; it is taken to be the
  correctly rounded one.
\<close>

definition Math_log :: "real \<Rightarrow> real" where
  "Math_log x = fl (ln x)"

text \<open>\<open>s.charAt(i)\<close>: the one-unit string at index \<open>i\<close>, the empty string out of range.\<close>

definition charAt :: "jsstring \<Rightarrow> nat \<Rightarrow> jsstring" where
  "charAt s i = (if i < length s then [s ! i] else [])"

text \<open>\<open>xs.indexOf(x)\<close>: the first index holding \<open>x\<close>, or \<open>-1\<close>.\<close>

primrec indexOf :: "'a list \<Rightarrow> 'a \<Rightarrow> int" where
  "indexOf [] x = - 1"
| "indexOf (y # ys) x =
     (if y = x then 0 else (let r = indexOf ys x in if r < 0 then - 1 else r + 1))"


section \<open>Identifier codec (src/signature-encoder.js)\<close>

text \<open>
  The six separators, in the order of the source array: U+007C, U+00A6, U+01C0, U+FF5C,
  U+2503, U+2551.  Each is one UTF-16 code unit.
\<close>

definition SEPARATORS :: "jsstring list" where
  "SEPARATORS = [[124], [166], [448], [65372], [9475], [9553]]"

text \<open>
  \<open>intToBaseNArray\<close>, first loop: \<open>while (tempNumber > 0)\<close> pushes \<open>tempNumber % base\<close> to
  the front and continues with \<open>Math.floor(tempNumber / base)\<close>.  For a positive integer
  and \<open>base \<ge> 1\<close> these are \<open>mod\<close> and \<open>div\<close>.  With \<open>base = 1\<close> the loop of the source never
  ends, so the loop is a partial function and \<open>None\<close> stands for not returning; the only
  caller passes \<open>SEPARATORS.length\<close>.
\<close>

partial_function (option) intToBaseNArray_convert :: "int \<Rightarrow> int \<Rightarrow> int list \<Rightarrow> int list option"
  where
  "intToBaseNArray_convert tempNumber base digits =
     (if tempNumber > 0
      then intToBaseNArray_convert (tempNumber div base) base ((tempNumber mod base) # digits)
      else Some digits)"

declare intToBaseNArray_convert.simps [code]

text \<open>Second loop: \<open>while (digits.length < length) digits.unshift(0)\<close>.\<close>

function intToBaseNArray_pad :: "int list \<Rightarrow> int \<Rightarrow> int list" where
  "intToBaseNArray_pad digits len =
     (if int (length digits) < len then intToBaseNArray_pad (0 # digits) len else digits)"
  by pat_completeness auto
termination
  by (relation "measure (\<lambda>(digits, len). nat (len - int (length digits)))") auto

declare intToBaseNArray_pad.simps [simp del]

definition intToBaseNArray :: "int \<Rightarrow> int \<Rightarrow> int \<Rightarrow> int list option" where
  "intToBaseNArray number base len =
     (case intToBaseNArray_convert number base [] of
        None \<Rightarrow> None
      | Some digits \<Rightarrow> Some (intToBaseNArray_pad digits len))"

text \<open>
  The body of the \<open>for\<close> loop of \<open>generateStealthSignature\<close> at index \<open>i\<close>: append the chunk,
  then, while \<open>i < numSeparators\<close>, the separator of the \<open>i\<close>-th digit.
\<close>

definition generate_step :: "jsstring list \<Rightarrow> int \<Rightarrow> int list \<Rightarrow> nat \<Rightarrow> jsstring \<Rightarrow> jsstring" where
  "generate_step signatureChunks numSeparators encodingDigits i stealthSignature =
     (let s = stealthSignature @ signatureChunks ! i
      in if int i < numSeparators then s @ SEPARATORS ! nat (encodingDigits ! i) else s)"

definition generateStealthSignature :: "int \<Rightarrow> jsstring list \<Rightarrow> jsstring option" where
  "generateStealthSignature idNumber signatureChunks =
     (let base = int (length SEPARATORS);
          numSeparators = int (length signatureChunks) - 1
      in case intToBaseNArray idNumber base numSeparators of
           None \<Rightarrow> None
         | Some encodingDigits \<Rightarrow>
             Some (fold (generate_step signatureChunks numSeparators encodingDigits)
                     [0 ..< length signatureChunks] []))"

text \<open>
  \<open>decodeStealthSignature\<close>.  The first loop walks the expected chunks and records the
  offset after each of the first \<open>length - 1\<close> chunks; the state is the pair
  \<open>(position, separatorIndices)\<close>.
\<close>

definition decode_step :: "jsstring list \<Rightarrow> nat \<Rightarrow> nat \<times> nat list \<Rightarrow> nat \<times> nat list" where
  "decode_step expectedChunks i st =
     (let position = fst st + length (expectedChunks ! i)
      in (position + 1, snd st @ [position]))"

definition separatorIndices :: "jsstring list \<Rightarrow> nat list" where
  "separatorIndices expectedChunks =
     snd (fold (decode_step expectedChunks) [0 ..< length expectedChunks - 1] (0, []))"

definition decodeStealthSignature :: "jsstring \<Rightarrow> jsstring list \<Rightarrow> int" where
  "decodeStealthSignature signature expectedChunks =
     (let extractedSeparators = map (charAt signature) (separatorIndices expectedChunks);
          digits = map (indexOf SEPARATORS) extractedSeparators;
          base = int (length SEPARATORS)
      in fold (\<lambda>d idNumber. idNumber * base + d) digits 0)"

definition defaultChunks :: "jsstring list" where
  "defaultChunks = [str '' Larry Velez '', str '' kogi.ai '', str '' 212-380-1014 '', str '' '']"


section \<open>Entity store and importance scores (src/utilities/knowledge_graph.js)\<close>

text \<open>
  An observation is an object with a \<open>type\<close> and a free set of fields.  The record has the
  fields that the scoring code reads or writes, each optional (absent is \<open>undefined\<close>), and
  keeps every other field in \<open>otherFields\<close>.  \<open>lastContacted\<close> is the time value, in
  milliseconds, of the stored date string.  Objects are values here: the store is read
  from JSON, where no two entities share an observation object.
\<close>

record observation =
  obs_type :: jsstring
  emailCount :: "int option"
  lastContacted :: "int option"
  responseRate :: "real option"
  meetingCount :: "int option"
  manualPriority :: "real option"
  calculatedScore :: "int option"
  otherFields :: "(jsstring \<times> jsstring) list"

record entity =
  ent_id :: jsstring
  ent_name :: jsstring
  entityType :: jsstring
  observations :: "observation list"

record relationship =
  rel_from :: jsstring
  relationType :: jsstring
  rel_to :: jsstring

text \<open>
  \<open>this.entities\<close> is an object keyed by entity id; the association list holds its
  entries in the order in which \<open>Object.values\<close> enumerates them.
\<close>

record KnowledgeGraph =
  entities :: "(jsstring \<times> entity) list"
  relationships :: "relationship list"

definition findEntitiesByType :: "KnowledgeGraph \<Rightarrow> jsstring \<Rightarrow> entity list" where
  "findEntitiesByType g t = filter (\<lambda>e. entityType e = t) (map snd (entities g))"

text \<open>\<open>observations.find(obs => obs.type === t)\<close>: the first observation of that type.\<close>

definition findObservation :: "entity \<Rightarrow> jsstring \<Rightarrow> observation option" where
  "findObservation e t = find (\<lambda>obs. obs_type obs = t) (observations e)"

text \<open>
  Assigning to a field of the object that \<open>find\<close> returned changes the first matching
  element of the array and nothing else.
\<close>

primrec update_first :: "('a \<Rightarrow> bool) \<Rightarrow> ('a \<Rightarrow> 'a) \<Rightarrow> 'a list \<Rightarrow> 'a list" where
  "update_first P f [] = []"
| "update_first P f (x # xs) = (if P x then f x # xs else x # update_first P f xs)"

text \<open>\<open>x || 0\<close> for an optional number.\<close>

definition orZero :: "'a::zero option \<Rightarrow> 'a" where
  "orZero v = (case v of None \<Rightarrow> 0 | Some x \<Rightarrow> x)"

definition normalizeFrequency :: "int \<Rightarrow> real" where
  "normalizeFrequency emailCount' =
     (let maxEmails = 100
      in if emailCount' \<le> 0 then 0
         else if emailCount' \<ge> maxEmails then 1
         else fl (Math_log (real_of_int emailCount') / Math_log (real_of_int maxEmails)))"

text \<open>\<open>now\<close> is the time value of \<open>new Date()\<close> in milliseconds.\<close>

definition normalizeRecency :: "int \<Rightarrow> int option \<Rightarrow> real" where
  "normalizeRecency now lastContactedDate =
     (case lastContactedDate of
        None \<Rightarrow> 0
      | Some lastDate \<Rightarrow>
          (let daysDiff = max 0 (fl (real_of_int (now - lastDate) / (1000 * 60 * 60 * 24)));
               maxDays = 365
           in max 0 (fl (1 - fl (daysDiff / maxDays)))))"

definition normalizeMeetingFrequency :: "int \<Rightarrow> real" where
  "normalizeMeetingFrequency meetingCount' =
     (let maxMeetings = 20
      in if meetingCount' \<le> 0 then 0
         else if meetingCount' \<ge> maxMeetings then 1
         else fl (real_of_int meetingCount' / real_of_int maxMeetings))"

text \<open>
  \<open>Math.round\<close> rounds a double to the nearest integer, a half towards plus infinity; it
  is exact on the value it is given.
\<close>

definition Math_round :: "real \<Rightarrow> int" where
  "Math_round x = \<lfloor>x + 1 / 2\<rfloor>"

text \<open>
  The five keys of the \<open>scores\<close> object.  A weight mapping is the list of its entries in
  the order of \<open>Object.entries\<close>; its keys are among these five.  A decimal literal of
  the source denotes the nearest double.
\<close>

datatype factor = Frequency | Recency | ResponseRate | MeetingFrequency | ManualPriority

type_synonym weights = "(factor \<times> real) list"

definition defaultWeights :: weights where
  "defaultWeights =
     [(Frequency, fl 0.25), (Recency, fl 0.30), (ResponseRate, fl 0.20),
      (MeetingFrequency, fl 0.15), (ManualPriority, fl 0.10)]"

fun scores :: "int \<Rightarrow> observation \<Rightarrow> observation \<Rightarrow> factor \<Rightarrow> real" where
  "scores now metricsObs importanceObs Frequency =
     normalizeFrequency (orZero (emailCount metricsObs))"
| "scores now metricsObs importanceObs Recency =
     normalizeRecency now (lastContacted metricsObs)"
| "scores now metricsObs importanceObs ResponseRate = orZero (responseRate metricsObs)"
| "scores now metricsObs importanceObs MeetingFrequency =
     normalizeMeetingFrequency (orZero (meetingCount metricsObs))"
| "scores now metricsObs importanceObs ManualPriority =
     fl (orZero (manualPriority importanceObs) / 10)"

definition totalScore :: "int \<Rightarrow> weights \<Rightarrow> observation \<Rightarrow> observation \<Rightarrow> real" where
  "totalScore now ws metricsObs importanceObs =
     fold (\<lambda>(f, weight) total. fl (total + fl (scores now metricsObs importanceObs f * weight)))
       ws 0"

definition computeScore :: "int \<Rightarrow> weights \<Rightarrow> observation \<Rightarrow> observation \<Rightarrow> int" where
  "computeScore now ws metricsObs importanceObs =
     Math_round (fl (totalScore now ws metricsObs importanceObs * 100))"

definition communication_metrics :: jsstring where
  "communication_metrics = str ''communication_metrics''"

definition importance_metrics :: jsstring where
  "importance_metrics = str ''importance_metrics''"

definition Contact :: jsstring where
  "Contact = str ''Contact''"

text \<open>The body of \<open>contacts.forEach\<close> in \<open>calculateImportanceScores\<close>.\<close>

definition scoreContact :: "int \<Rightarrow> weights \<Rightarrow> entity \<Rightarrow> entity" where
  "scoreContact now ws contact =
     (case (findObservation contact communication_metrics,
            findObservation contact importance_metrics) of
        (Some metricsObs, Some importanceObs) \<Rightarrow>
          contact\<lparr>observations :=
            update_first (\<lambda>obs. obs_type obs = importance_metrics)
              (\<lambda>obs. obs\<lparr>calculatedScore := Some (computeScore now ws metricsObs importanceObs)\<rparr>)
              (observations contact)\<rparr>
      | _ \<Rightarrow> contact)"

definition calculateImportanceScores :: "int \<Rightarrow> weights \<Rightarrow> KnowledgeGraph \<Rightarrow> KnowledgeGraph" where
  "calculateImportanceScores now ws g =
     g\<lparr>entities :=
         map (\<lambda>(k, e). (k, if entityType e = Contact then scoreContact now ws e else e))
           (entities g)\<rparr>"

text \<open>
  \<open>getTopContacts\<close>.  The key of the comparator is
  \<open>find(importance_metrics)?.calculatedScore || 0\<close>; \<open>Array.prototype.sort\<close> is stable, and
  with the comparator \<open>scoreB - scoreA\<close> it orders by descending key, which is the stable
  insertion sort on the negated key.  \<open>slice(0, n)\<close> counts from the end for negative \<open>n\<close>.
\<close>

definition scoreOf :: "entity \<Rightarrow> int" where
  "scoreOf e =
     (case findObservation e importance_metrics of
        None \<Rightarrow> 0
      | Some obs \<Rightarrow> orZero (calculatedScore obs))"

definition slice0 :: "'a list \<Rightarrow> int \<Rightarrow> 'a list" where
  "slice0 xs n = (if n < 0 then take (nat (int (length xs) + n)) xs else take (nat n) xs)"

definition getTopContacts :: "KnowledgeGraph \<Rightarrow> int \<Rightarrow> entity list" where
  "getTopContacts g n =
     (let contacts = findEntitiesByType g Contact;
          sortedContacts = sort_key (\<lambda>e. - scoreOf e) contacts
      in slice0 sortedContacts n)"

text \<open>
  The order the specification asks of the ranking: score descending, equal scores by
  entity id ascending.  Strings compare as JavaScript compares them, code unit by code
  unit, a proper prefix first.
\<close>

fun js_string_le :: "jsstring \<Rightarrow> jsstring \<Rightarrow> bool" where
  "js_string_le [] ys = True"
| "js_string_le (x # xs) [] = False"
| "js_string_le (x # xs) (y # ys) = (x < y \<or> (x = y \<and> js_string_le xs ys))"

definition ranks_before :: "entity \<Rightarrow> entity \<Rightarrow> bool" where
  "ranks_before a b =
     (scoreOf a > scoreOf b \<or> (scoreOf a = scoreOf b \<and> js_string_le (ent_id a) (ent_id b)))"

fun ranked_by_score_then_id :: "entity list \<Rightarrow> bool" where
  "ranked_by_score_then_id [] = True"
| "ranked_by_score_then_id [a] = True"
| "ranked_by_score_then_id (a # b # rest) = (ranks_before a b \<and> ranked_by_score_then_id (b # rest))"


section \<open>Dates (the built-in \<open>Date\<close> of ECMAScript)\<close>

text \<open>
  A time value counts milliseconds from 1970-01-01T00:00:00Z.  A \<open>Date\<close> object is its
  time value together with the calendar fields that \<open>getFullYear\<close>, \<open>getMonth\<close> (0 to 11)
  and \<open>getDate\<close> report in the local time zone of the host.  The definitions below follow
  the ECMAScript specification of \<open>Date.UTC\<close>, \<open>getUTCDay\<close> and \<open>getUTCFullYear\<close>.
\<close>

record date =
  getTime :: int
  getFullYear :: int
  getMonth :: int
  getDate :: int

definition msPerDay :: int where
  "msPerDay = 86400000"

definition DayFromYear :: "int \<Rightarrow> int" where
  "DayFromYear y =
     365 * (y - 1970) + (y - 1969) div 4 - (y - 1901) div 100 + (y - 1601) div 400"

definition InLeapYear :: "int \<Rightarrow> bool" where
  "InLeapYear y = (y mod 4 = 0 \<and> (y mod 100 \<noteq> 0 \<or> y mod 400 = 0))"

text \<open>
  \<open>YearFromTime\<close> is the largest year whose first day is not after the given day; the
  search runs upwards from a year that is not after it.  It ends because the first days
  of successive years increase, which the lemmas before the function establish.
\<close>

lemma div_succ:
  assumes n: "0 < n"
  shows "((a::int) + 1) div n = a div n + (if (a + 1) mod n = 0 then 1 else 0)"
proof -
  let ?q = "(a + 1) div n" and ?r = "(a + 1) mod n"
  have 1: "n * ?q + ?r = a + 1" by simp
  have 2: "0 \<le> ?r" "?r < n" using n by simp_all
  show ?thesis
  proof (cases "?r = 0")
    case True
    with 1 have "n * ?q = a + 1" by linarith
    then have "a = n * (?q - 1) + (n - 1)" by (simp add: right_diff_distrib)
    then have "a div n = ?q - 1" by (rule int_div_pos_eq) (use n in simp_all)
    with True show ?thesis by simp
  next
    case False
    with 1 have "a = n * ?q + (?r - 1)" by linarith
    then have "a div n = ?q" by (rule int_div_pos_eq) (use 2 False in simp_all)
    with False show ?thesis by simp
  qed
qed

lemma mod_shift: "((y::int) + n * k) mod n = y mod n"
  by simp

lemma div4_next: "(y - 1968) div 4 = (y - 1969) div 4 + (if (y::int) mod 4 = 0 then 1 else 0)"
proof -
  have "y - 1969 + 1 = y + 4 * (- 492)" by simp
  then have "(y - 1969 + 1) mod 4 = y mod 4" by (simp only: mod_shift)
  then show ?thesis using div_succ[of 4 "y - 1969"] by simp
qed

lemma div100_next: "(y - 1900) div 100 = (y - 1901) div 100 + (if (y::int) mod 100 = 0 then 1 else 0)"
proof -
  have "y - 1901 + 1 = y + 100 * (- 19)" by simp
  then have "(y - 1901 + 1) mod 100 = y mod 100" by (simp only: mod_shift)
  then show ?thesis using div_succ[of 100 "y - 1901"] by simp
qed

lemma div400_next: "(y - 1600) div 400 = (y - 1601) div 400 + (if (y::int) mod 400 = 0 then 1 else 0)"
proof -
  have "y - 1601 + 1 = y + 400 * (- 4)" by simp
  then have "(y - 1601 + 1) mod 400 = y mod 400" by (simp only: mod_shift)
  then show ?thesis using div_succ[of 400 "y - 1601"] by simp
qed

lemma mod100_mod4: "y mod 4 = 0" if "(y::int) mod 100 = 0"
proof -
  from that have "100 dvd y" by (simp only: dvd_eq_mod_eq_0)
  then have "4 dvd y" by (rule dvd_trans[rotated]) simp
  then show ?thesis by (simp only: dvd_eq_mod_eq_0)
qed

lemma mod400_mod100: "y mod 100 = 0" if "(y::int) mod 400 = 0"
proof -
  from that have "400 dvd y" by (simp only: dvd_eq_mod_eq_0)
  then have "100 dvd y" by (rule dvd_trans[rotated]) simp
  then show ?thesis by (simp only: dvd_eq_mod_eq_0)
qed

lemma year_arith:
  "365 * (y - 1969) + (A + a) - (B + b) + (C + c)
     = 365 * (y - 1970) + A - B + C + 365 + a - b + (c::int)"
  by simp

text \<open>A year has 365 days, and 366 when it is a leap year.\<close>

lemma DayFromYear_Suc:
  "DayFromYear (y + 1) = DayFromYear y + (if InLeapYear y then 366 else 365)"
proof -
  have "DayFromYear (y + 1) =
          365 * (y - 1969) + (y - 1968) div 4 - (y - 1900) div 100 + (y - 1600) div 400"
    by (simp add: DayFromYear_def)
  also have "\<dots> = DayFromYear y + 365 + (if y mod 4 = 0 then 1 else 0)
                 - (if y mod 100 = 0 then 1 else 0) + (if y mod 400 = 0 then 1 else 0)"
    unfolding div4_next div100_next div400_next DayFromYear_def by (rule year_arith)
  finally have s: "DayFromYear (y + 1) = DayFromYear y + 365 + (if y mod 4 = 0 then 1 else 0)
                 - (if y mod 100 = 0 then 1 else 0) + (if y mod 400 = 0 then 1 else 0)" .
  consider "y mod 4 \<noteq> 0" | "y mod 4 = 0" "y mod 100 \<noteq> 0" | "y mod 100 = 0" "y mod 400 \<noteq> 0"
    | "y mod 400 = 0" by argo
  then show ?thesis
  proof cases
    case 1
    with mod100_mod4[of y] mod400_mod100[of y] have "y mod 100 \<noteq> 0" "y mod 400 \<noteq> 0" by argo+
    with 1 s show ?thesis unfolding InLeapYear_def by (simp only: if_False if_True simp_thms)
  next
    case 2
    with mod400_mod100[of y] have "y mod 400 \<noteq> 0" by argo
    with 2 s show ?thesis unfolding InLeapYear_def by (simp only: if_False if_True simp_thms)
  next
    case 3
    with mod100_mod4[of y] have "y mod 4 = 0" by argo
    with 3 s show ?thesis unfolding InLeapYear_def by (simp only: if_False if_True simp_thms)
  next
    case 4
    with mod100_mod4[of y] mod400_mod100[of y] have "y mod 4 = 0" "y mod 100 = 0" by argo+
    with 4 s show ?thesis unfolding InLeapYear_def by (simp only: if_False if_True simp_thms)
  qed
qed

lemma DayFromYear_less_next: "DayFromYear y < DayFromYear (y + 1)"
  by (simp add: DayFromYear_Suc)

function YearFromDay_search :: "int \<Rightarrow> int \<Rightarrow> int" where
  "YearFromDay_search day y =
     (if DayFromYear (y + 1) \<le> day then YearFromDay_search day (y + 1) else y)"
  by pat_completeness auto
termination
proof (relation "measure (\<lambda>(day, y). nat (day - DayFromYear (y + 1) + 1))")
  show "wf (measure (\<lambda>(day, y). nat (day - DayFromYear (y + 1) + 1)))"
    by simp
next
  fix day y :: int
  assume "DayFromYear (y + 1) \<le> day"
  with DayFromYear_less_next[of "y + 1"]
  show "((day, y + 1), (day, y)) \<in> measure (\<lambda>(day, y). nat (day - DayFromYear (y + 1) + 1))"
    by simp
qed

declare YearFromDay_search.simps [simp del]

definition YearFromDay :: "int \<Rightarrow> int" where
  "YearFromDay day =
     YearFromDay_search day (1970 + (if day \<ge> 0 then day div 366 else day div 365))"

definition daysBeforeMonth :: "int \<Rightarrow> int \<Rightarrow> int" where
  "daysBeforeMonth y mn =
     [0, 31, 59, 90, 120, 151, 181, 212, 243, 273, 304, 334] ! nat mn
       + (if mn \<ge> 2 \<and> InLeapYear y then 1 else 0)"

definition MakeDay :: "int \<Rightarrow> int \<Rightarrow> int \<Rightarrow> int" where
  "MakeDay y m dt =
     (let ym = y + m div 12; mn = m mod 12
      in DayFromYear ym + daysBeforeMonth ym mn + dt - 1)"

definition Date_UTC :: "int \<Rightarrow> int \<Rightarrow> int \<Rightarrow> int" where
  "Date_UTC y m dt =
     MakeDay (if 0 \<le> y \<and> y \<le> 99 then 1900 + y else y) m dt * msPerDay"

definition getUTCDay :: "int \<Rightarrow> int" where
  "getUTCDay t = (t div msPerDay + 4) mod 7"

definition getUTCFullYear :: "int \<Rightarrow> int" where
  "getUTCFullYear t = YearFromDay (t div msPerDay)"

text \<open>\<open>d.setUTCDate(d.getUTCDate() + k)\<close> moves the time value by \<open>k\<close> days.\<close>

definition addUTCDate :: "int \<Rightarrow> int \<Rightarrow> int" where
  "addUTCDate t k = t + k * msPerDay"


section \<open>Outreach ledger and response correlation (src/utilities/outreach_tracker.js)\<close>

definition getWeekNumber :: "date \<Rightarrow> int \<times> int" where
  "getWeekNumber dte =
     (let d = Date_UTC (getFullYear dte) (getMonth dte) (getDate dte);
          dayNum = (if getUTCDay d = 0 then 7 else getUTCDay d);
          d = addUTCDate d (4 - dayNum);
          yearStart = Date_UTC (getUTCFullYear d) 0 1
      in (getUTCFullYear d, \<lceil>(real_of_int (d - yearStart) / 86400000 + 1) / 7\<rceil>))"

text \<open>
  A quotient of two numbers; \<open>None\<close> is the value that is not a finite number (the
  divisor is zero), which the JSON files store as \<open>null\<close>.
\<close>

definition js_div :: "int \<Rightarrow> int \<Rightarrow> real option" where
  "js_div a b = (if b = 0 then None else Some (real_of_int a / real_of_int b))"

record email =
  email_contactId :: jsstring
  email_subject :: jsstring
  email_to :: jsstring
  email_category :: "jsstring option"

record outreachRecord =
  lastOutreachDate :: int
  outreachCount :: int
  lastEmailSubject :: jsstring
  lastEmailTo :: jsstring
  responded :: bool
  responseDate :: "int option"
  responseTime :: "real option"

record trackingCode =
  tc_contactId :: jsstring
  tc_email :: jsstring
  tc_outreachDate :: int
  signatureChunks :: "jsstring list"
  tc_category :: "jsstring option"

record categoryEntry =
  cm_sent :: int
  cm_responses :: int
  cm_responseRate :: "real option"

record weeklyEntry =
  wk_year :: int
  wk_week :: int
  wk_sent :: int
  wk_responses :: int
  wk_responseRate :: "real option"

record responseMetrics =
  totalSent :: int
  totalResponses :: int
  rm_responseRate :: "real option"
  responseTimes :: "jsstring \<rightharpoonup> real"
  categoryMetrics :: "jsstring \<rightharpoonup> categoryEntry"
  weeklyStats :: "weeklyEntry list"

text \<open>
  \<open>trackingCodes\<close> is iterated with \<open>Object.entries\<close>, so it is the list of its entries in
  that order; assigning to a key keeps the place of a key already there and appends a
  new one.  The other two objects are only read and written by key.
\<close>

record trackingData =
  outreachStatus :: "jsstring \<rightharpoonup> outreachRecord"
  responseMetrics :: responseMetrics
  trackingCodes :: "(jsstring \<times> trackingCode) list"

datatype error = CouldNotDecode | NoOutreachRecord jsstring

text \<open>A string is truthy when it is not empty.\<close>

definition truthy :: "jsstring option \<Rightarrow> bool" where
  "truthy v = (case v of None \<Rightarrow> False | Some s \<Rightarrow> s \<noteq> [])"

definition sameWeek :: "int \<times> int \<Rightarrow> weeklyEntry \<Rightarrow> bool" where
  "sameWeek w entry = (wk_year entry = fst w \<and> wk_week entry = snd w)"

definition recordOutreach_status :: "email \<Rightarrow> date \<Rightarrow> outreachRecord option \<Rightarrow> outreachRecord" where
  "recordOutreach_status em now existing =
     \<lparr>lastOutreachDate = getTime now,
      outreachCount = (case existing of None \<Rightarrow> 0 | Some r \<Rightarrow> outreachCount r) + 1,
      lastEmailSubject = email_subject em,
      lastEmailTo = email_to em,
      responded = False,
      responseDate = None,
      responseTime = (case existing of None \<Rightarrow> None | Some r \<Rightarrow> responseTime r)\<rparr>"

definition recordOutreach_category :: "email \<Rightarrow> responseMetrics \<Rightarrow> responseMetrics" where
  "recordOutreach_category em rm =
     (if truthy (email_category em)
      then (let category = the (email_category em);
                entry = (case categoryMetrics rm category of
                           None \<Rightarrow> \<lparr>cm_sent = 0, cm_responses = 0, cm_responseRate = Some 0\<rparr>
                         | Some c \<Rightarrow> c)
            in rm\<lparr>categoryMetrics :=
                    (categoryMetrics rm)(category \<mapsto> entry\<lparr>cm_sent := cm_sent entry + 1\<rparr>)\<rparr>)
      else rm)"

definition recordOutreach_weekly :: "date \<Rightarrow> responseMetrics \<Rightarrow> responseMetrics" where
  "recordOutreach_weekly now rm =
     (let currentWeek = getWeekNumber now
      in case find (sameWeek currentWeek) (weeklyStats rm) of
           Some weeklyEntry \<Rightarrow>
             rm\<lparr>weeklyStats :=
                  update_first (sameWeek currentWeek) (\<lambda>e. e\<lparr>wk_sent := wk_sent e + 1\<rparr>)
                    (weeklyStats rm)\<rparr>
         | None \<Rightarrow>
             rm\<lparr>weeklyStats := weeklyStats rm @
                  [\<lparr>wk_year = fst currentWeek, wk_week = snd currentWeek, wk_sent = 1,
                    wk_responses = 0, wk_responseRate = Some 0\<rparr>]\<rparr>)"

text \<open>\<open>now\<close> is the value of \<open>new Date()\<close> during the call.\<close>

definition recordOutreach :: "email \<Rightarrow> date \<Rightarrow> trackingData \<Rightarrow> trackingData" where
  "recordOutreach em now td =
     (let contactId = email_contactId em;
          rm = responseMetrics td;
          rm = rm\<lparr>totalSent := totalSent rm + 1\<rparr>;
          rm = recordOutreach_category em rm;
          rm = recordOutreach_weekly now rm
      in \<lparr>outreachStatus =
            (outreachStatus td)
              (contactId \<mapsto> recordOutreach_status em now (outreachStatus td contactId)),
          responseMetrics = rm,
          trackingCodes =
            AList.update contactId
              \<lparr>tc_contactId = contactId, tc_email = email_to em, tc_outreachDate = getTime now,
               signatureChunks = defaultChunks, tc_category = None\<rparr>
              (trackingCodes td)\<rparr>)"

text \<open>
  \<open>id.replace('contact_', '')\<close> replaces the first occurrence of the pattern;
  \<open>parseInt(s, 10)\<close> skips leading white space, reads an optional sign and the longest run
  of decimal digits, and is \<open>NaN\<close> (here \<open>None\<close>) when there is no digit.
\<close>

fun replace_first :: "jsstring \<Rightarrow> jsstring \<Rightarrow> jsstring \<Rightarrow> jsstring" where
  "replace_first pat rep [] = (if pat = [] then rep else [])"
| "replace_first pat rep (c # cs) =
     (if take (length pat) (c # cs) = pat then rep @ drop (length pat) (c # cs)
      else c # replace_first pat rep cs)"

definition isWhiteSpace :: "nat \<Rightarrow> bool" where
  "isWhiteSpace c =
     (c \<in> {9, 10, 11, 12, 13, 32, 160, 5760, 8232, 8233, 8239, 8287, 12288, 65279}
      \<or> (8192 \<le> c \<and> c \<le> 8202))"

definition isDigit :: "nat \<Rightarrow> bool" where
  "isDigit c = (48 \<le> c \<and> c \<le> 57)"

definition digitsValue :: "nat list \<Rightarrow> int" where
  "digitsValue cs = fold (\<lambda>c v. v * 10 + (int c - 48)) cs 0"

definition parseInt :: "jsstring \<Rightarrow> int option" where
  "parseInt s =
     (let s1 = dropWhile isWhiteSpace s;
          negative = (s1 \<noteq> [] \<and> hd s1 = 45);
          s2 = (if s1 \<noteq> [] \<and> (hd s1 = 43 \<or> hd s1 = 45) then tl s1 else s1);
          ds = takeWhile isDigit s2
      in if ds = [] then None
         else Some (if negative then - digitsValue ds else digitsValue ds))"

text \<open>The decimal text of an integer, as the template \<open>`contact_${decodedId}`\<close> builds it.\<close>

fun show_nat :: "nat \<Rightarrow> jsstring" where
  "show_nat n = (if n < 10 then [48 + n] else show_nat (n div 10) @ [48 + n mod 10])"

declare show_nat.simps [simp del]

definition show_int :: "int \<Rightarrow> jsstring" where
  "show_int i = (if i < 0 then 45 # show_nat (nat (- i)) else show_nat (nat i))"

definition contact_prefix :: jsstring where
  "contact_prefix = str ''contact_''"

text \<open>
  The loop of \<open>recordResponse\<close> over the tracking codes: the first code whose own number
  equals the number decoded with its chunks decides the contact id.
\<close>

fun findContact :: "jsstring \<Rightarrow> (jsstring \<times> trackingCode) list \<Rightarrow> jsstring option" where
  "findContact signature [] = None"
| "findContact signature ((id', codeData) # rest) =
     (let decodedId = decodeStealthSignature signature (signatureChunks codeData);
          expectedId = parseInt (replace_first contact_prefix [] id')
      in if expectedId = Some decodedId then Some (contact_prefix @ show_int decodedId)
         else findContact signature rest)"

definition recordResponse_status :: "date \<Rightarrow> outreachRecord \<Rightarrow> outreachRecord" where
  "recordResponse_status rd outreachData =
     outreachData
       \<lparr>responded := True,
        responseDate := Some (getTime rd),
        responseTime :=
          Some (real_of_int (getTime rd - lastOutreachDate outreachData) / (1000 * 60 * 60 * 24))\<rparr>"

definition recordResponse_category :: "trackingCode option \<Rightarrow> responseMetrics \<Rightarrow> responseMetrics" where
  "recordResponse_category em rm =
     (case em of
        None \<Rightarrow> rm
      | Some code \<Rightarrow>
          if truthy (tc_category code)
          then (let category = the (tc_category code)
                in case categoryMetrics rm category of
                     None \<Rightarrow> rm
                   | Some entry \<Rightarrow>
                       rm\<lparr>categoryMetrics :=
                           (categoryMetrics rm)
                             (category \<mapsto>
                                entry\<lparr>cm_responses := cm_responses entry + 1,
                                      cm_responseRate :=
                                        js_div (cm_responses entry + 1) (cm_sent entry)\<rparr>)\<rparr>)
          else rm)"

definition recordResponse_weekly :: "date \<Rightarrow> responseMetrics \<Rightarrow> responseMetrics" where
  "recordResponse_weekly rd rm =
     (let responseWeek = getWeekNumber rd
      in case find (sameWeek responseWeek) (weeklyStats rm) of
           Some weeklyEntry \<Rightarrow>
             rm\<lparr>weeklyStats :=
                  update_first (sameWeek responseWeek)
                    (\<lambda>e. e\<lparr>wk_responses := wk_responses e + 1,
                            wk_responseRate := js_div (wk_responses e + 1) (wk_sent e)\<rparr>)
                    (weeklyStats rm)\<rparr>
         | None \<Rightarrow> rm)"

definition recordResponse ::
  "jsstring \<Rightarrow> date \<Rightarrow> trackingData \<Rightarrow> error + (trackingData \<times> jsstring)" where
  "recordResponse signature rd td =
     (case findContact signature (trackingCodes td) of
        None \<Rightarrow> Inl CouldNotDecode
      | Some contactId \<Rightarrow>
          (case outreachStatus td contactId of
             None \<Rightarrow> Inl (NoOutreachRecord contactId)
           | Some outreachData \<Rightarrow>
               (let outreachData = recordResponse_status rd outreachData;
                    rm = responseMetrics td;
                    rm = rm\<lparr>totalResponses := totalResponses rm + 1\<rparr>;
                    rm = rm\<lparr>rm_responseRate := js_div (totalResponses rm) (totalSent rm)\<rparr>;
                    rm = rm\<lparr>responseTimes :=
                            (responseTimes rm)(contactId \<mapsto> the (responseTime outreachData))\<rparr>;
                    rm = recordResponse_category (map_of (trackingCodes td) contactId) rm;
                    rm = recordResponse_weekly rd rm
                in Inr (td\<lparr>outreachStatus := (outreachStatus td)(contactId \<mapsto> outreachData),
                           responseMetrics := rm\<rparr>,
                        contactId))))"


section \<open>Notions used in the proofs\<close>

text \<open>The number that a list of digits denotes in base \<open>b\<close>, most significant digit first.\<close>

definition fromDigits :: "int \<Rightarrow> int list \<Rightarrow> int" where
  "fromDigits b ds = fold (\<lambda>d a. a * b + d) ds 0"

text \<open>The signature after the first \<open>n\<close> rounds of the loop of \<open>generateStealthSignature\<close>.\<close>

definition generate_upto :: "jsstring list \<Rightarrow> int \<Rightarrow> int list \<Rightarrow> nat \<Rightarrow> jsstring" where
  "generate_upto cs ns ds n = fold (generate_step cs ns ds) [0 ..< n] []"






definition spec_meetingFrequency :: "int option \<Rightarrow> real" where
  "spec_meetingFrequency count =
     (case count of None \<Rightarrow> 0 | Some n \<Rightarrow> max 0 (min 1 (fl (real_of_int n / 20))))"





text \<open>
  What scoring may change: of an observation only \<open>calculatedScore\<close>, and only when its
  type is \<open>importance_metrics\<close>; of an entity only such observations, and nothing when it
  is not a Contact or lacks one of the two observations; of a store entry not the key.
\<close>

definition same_but_score :: "observation \<Rightarrow> observation \<Rightarrow> bool" where
  "same_but_score ob ob' = (ob' = ob\<lparr>calculatedScore := calculatedScore ob'\<rparr>)"

definition obs_frame :: "observation \<Rightarrow> observation \<Rightarrow> bool" where
  "obs_frame ob ob' =
     (same_but_score ob ob' \<and> (obs_type ob \<noteq> importance_metrics \<longrightarrow> ob' = ob))"

definition entity_frame :: "entity \<Rightarrow> entity \<Rightarrow> bool" where
  "entity_frame e e' =
     (ent_id e' = ent_id e \<and> ent_name e' = ent_name e \<and> entityType e' = entityType e
      \<and> list_all2 obs_frame (observations e) (observations e')
      \<and> (entityType e \<noteq> Contact \<longrightarrow> e' = e)
      \<and> (findObservation e communication_metrics = None
           \<or> findObservation e importance_metrics = None \<longrightarrow> e' = e))"

definition entry_frame :: "jsstring \<times> entity \<Rightarrow> jsstring \<times> entity \<Rightarrow> bool" where
  "entry_frame p p' = (fst p' = fst p \<and> entity_frame (snd p) (snd p'))"


text \<open>
  The ISO-8601 week in the words of the specification: the day number of a calendar
  date, the day of the week of a day number (0 is Sunday, as \<open>getUTCDay\<close> counts), and
  the Thursday of the week, Monday to Sunday, that holds the day.
\<close>

definition dayOf :: "date \<Rightarrow> int" where
  "dayOf dte = Date_UTC (getFullYear dte) (getMonth dte) (getDate dte) div msPerDay"

definition WeekDay :: "int \<Rightarrow> int" where
  "WeekDay day = (day + 4) mod 7"

definition thursdayOf :: "int \<Rightarrow> int" where
  "thursdayOf day = day + 4 - (if WeekDay day = 0 then 7 else WeekDay day)"


section \<open>Example data\<close>

text \<open>
  The contact of the end-to-end scenario of the specification: 45 emails, last contacted
  15 days before \<open>example_now\<close>, response rate 0.85, 12 meetings, manual priority 9.
\<close>

definition example_now :: int where
  "example_now = 15 * 86400000"

definition example_metrics :: observation where
  "example_metrics =
     \<lparr>obs_type = communication_metrics, emailCount = Some 45, lastContacted = Some 0,
      responseRate = Some 0.85, meetingCount = Some 12, manualPriority = None,
      calculatedScore = None, otherFields = []\<rparr>"

definition example_importance :: observation where
  "example_importance =
     \<lparr>obs_type = importance_metrics, emailCount = None, lastContacted = None,
      responseRate = None, meetingCount = None, manualPriority = Some 9,
      calculatedScore = Some 0, otherFields = []\<rparr>"

definition example_contact :: entity where
  "example_contact =
     \<lparr>ent_id = str ''contact_1'', ent_name = str ''Ada'', entityType = Contact,
      observations = [example_metrics, example_importance]\<rparr>"

definition example_unscored :: entity where
  "example_unscored =
     \<lparr>ent_id = str ''contact_2'', ent_name = str ''Bob'', entityType = Contact,
      observations = [example_importance]\<rparr>"

definition example_organization :: entity where
  "example_organization =
     \<lparr>ent_id = str ''org_1'', ent_name = str ''Kogi'', entityType = str ''Organization'',
      observations = [example_metrics, example_importance]\<rparr>"

definition example_graph :: KnowledgeGraph where
  "example_graph =
     \<lparr>entities = [(str ''contact_1'', example_contact), (str ''contact_2'', example_unscored),
                  (str ''org_1'', example_organization)],
      relationships =
        [\<lparr>rel_from = str ''contact_1'', relationType = str ''works_at'', rel_to = str ''org_1''\<rparr>]\<rparr>"

text \<open>Two contacts with the same score, stored with \<open>contact_2\<close> before \<open>contact_1\<close>.\<close>

definition tie_graph :: KnowledgeGraph where
  "tie_graph =
     \<lparr>entities =
        [(str ''contact_2'', example_contact\<lparr>ent_id := str ''contact_2''\<rparr>),
         (str ''contact_1'', example_contact)],
      relationships = []\<rparr>"








text \<open>Sunday 2021-01-03, which belongs to the last week of 2020.\<close>

definition example_date :: date where
  "example_date = \<lparr>getTime = 1609632000000, getFullYear = 2021, getMonth = 0, getDate = 3\<rparr>"


text \<open>
  The outreach scenario of the specification: the tracking data as
  \<open>initializeTrackingSystem\<close> creates it, one email to \<open>contact_1\<close> sent on Monday
  2024-12-30, and a reply three days later that quotes the signature of id 1.  After the
  reply the same email is sent once more.
\<close>

definition empty_tracking :: trackingData where
  "empty_tracking =
     \<lparr>outreachStatus = Map.empty,
      responseMetrics =
        \<lparr>totalSent = 0, totalResponses = 0, rm_responseRate = Some 0,
         responseTimes = Map.empty, categoryMetrics = Map.empty, weeklyStats = []\<rparr>,
      trackingCodes = []\<rparr>"

definition example_email :: email where
  "example_email =
     \<lparr>email_contactId = str ''contact_1'', email_subject = str ''Hello'',
      email_to = str ''a@b.com'', email_category = None\<rparr>"

definition outreach_time :: date where
  "outreach_time = \<lparr>getTime = 1735516800000, getFullYear = 2024, getMonth = 11, getDate = 30\<rparr>"

definition response_time :: date where
  "response_time = \<lparr>getTime = 1735776000000, getFullYear = 2025, getMonth = 0, getDate = 2\<rparr>"

definition example_signature :: jsstring where
  "example_signature =
     str '' Larry Velez '' @ [124] @ str '' kogi.ai '' @ [124] @ str '' 212-380-1014 '' @ [166]
       @ str '' ''"

definition after_outreach :: trackingData where
  "after_outreach = recordOutreach example_email outreach_time empty_tracking"

definition after_response :: trackingData where
  "after_response =
     (case recordResponse example_signature response_time after_outreach of
        Inl e \<Rightarrow> after_outreach
      | Inr (td, c) \<Rightarrow> td)"

definition second_outreach :: trackingData where
  "second_outreach = recordOutreach example_email response_time after_response"


section \<open>The codec: digits, encoding and decoding\<close>

lemma fromDigits_snoc: "fromDigits b (ds @ [d]) = fromDigits b ds * b + d"
  by (simp add: fromDigits_def)

lemma fromDigits_replicate: "fromDigits b (replicate n 0 @ ds) = fromDigits b ds"
proof -
  have "fold (\<lambda>d a. a * b + d) (replicate n 0) 0 = 0"
    by (induction n) simp_all
  then show ?thesis by (simp add: fromDigits_def)
qed

lemma convert_returns:
  assumes b: "2 \<le> b"
  shows "\<exists>r. intToBaseNArray_convert t b ds = Some (r @ ds) \<and> (\<forall>d\<in>set r. 0 \<le> d \<and> d < b)
           \<and> fromDigits b r = max t 0 \<and> (\<forall>k. t < b ^ k \<longrightarrow> length r \<le> k)"
proof (induction "nat t" arbitrary: t ds rule: less_induct)
  case less
  show ?case
  proof (cases "t > 0")
    case False
    then have "intToBaseNArray_convert t b ds = Some ([] @ ds)"
      by (simp add: intToBaseNArray_convert.simps)
    moreover have "fromDigits b [] = max t 0" using False by (simp add: fromDigits_def)
    ultimately show ?thesis by (intro exI[of _ "[]"]) simp
  next
    case True
    have q: "0 \<le> t div b" "t div b < t" using True b
      by (simp_all add: pos_imp_zdiv_nonneg_iff int_div_less_self)
    then have "nat (t div b) < nat t" by simp
    from less[OF this, of "(t mod b) # ds"] obtain r where
      r: "intToBaseNArray_convert (t div b) b ((t mod b) # ds) = Some (r @ (t mod b) # ds)"
         "\<forall>d\<in>set r. 0 \<le> d \<and> d < b" "fromDigits b r = max (t div b) 0"
         "\<forall>k. t div b < b ^ k \<longrightarrow> length r \<le> k"
      by blast
    let ?r = "r @ [t mod b]"
    have 1: "intToBaseNArray_convert t b ds = Some (?r @ ds)"
      using True r(1) by (subst intToBaseNArray_convert.simps) simp
    have 2: "\<forall>d\<in>set ?r. 0 \<le> d \<and> d < b" using r(2) b by auto
    have 3: "fromDigits b ?r = max t 0"
      using r(3) q True by (simp add: fromDigits_snoc)
    have 4: "length ?r \<le> k" if "t < b ^ k" for k
    proof (cases k)
      case 0
      with that True show ?thesis by simp
    next
      case (Suc j)
      with that have "t < b ^ j * b" by (simp add: mult.commute)
      moreover have "t div b * b + t mod b = t" "0 \<le> t mod b" using b by simp_all
      moreover have "b ^ j * b \<le> t div b * b" if "b ^ j \<le> t div b"
        using that b by (intro mult_right_mono) simp_all
      ultimately have "t div b < b ^ j" by linarith
      with r(4) have "length r \<le> j" by blast
      with Suc show ?thesis by simp
    qed
    from 1 2 3 4 show ?thesis by blast
  qed
qed

lemma pad_eq: "intToBaseNArray_pad ds len = replicate (nat (len - int (length ds))) 0 @ ds"
proof (induction ds len rule: intToBaseNArray_pad.induct)
  case (1 digits len)
  show ?case
  proof (cases "int (length digits) < len")
    case True
    then have "nat (len - int (length digits)) = Suc (nat (len - int (length (0 # digits))))"
      by simp
    with 1 True show ?thesis
      by (subst intToBaseNArray_pad.simps) (simp add: replicate_app_Cons_same)
  next
    case False
    then show ?thesis by (subst intToBaseNArray_pad.simps) simp
  qed
qed

lemma intToBaseNArray_in_range:
  assumes "0 \<le> n" "n < 6 ^ k"
  shows "\<exists>ds. intToBaseNArray n 6 (int k) = Some ds \<and> length ds = k
           \<and> (\<forall>d\<in>set ds. 0 \<le> d \<and> d < 6) \<and> fromDigits 6 ds = n"
proof -
  from convert_returns[of 6 n "[]"] assms obtain r where
    r: "intToBaseNArray_convert n 6 [] = Some r" "\<forall>d\<in>set r. 0 \<le> d \<and> d < 6"
       "fromDigits 6 r = n" "length r \<le> k"
    by auto
  let ?ds = "replicate (k - length r) 0 @ r"
  have "intToBaseNArray n 6 (int k) = Some ?ds"
    using r(1,4) by (simp add: intToBaseNArray_def pad_eq nat_diff_distrib')
  moreover have "length ?ds = k" using r(4) by simp
  moreover have "\<forall>d\<in>set ?ds. 0 \<le> d \<and> d < 6" using r(2) by auto
  moreover have "fromDigits 6 ?ds = n" using r(3) by (simp add: fromDigits_replicate)
  ultimately show ?thesis by blast
qed


lemma generate_upto_Suc:
  "generate_upto cs ns ds (Suc n) = generate_step cs ns ds n (generate_upto cs ns ds n)"
  by (simp add: generate_upto_def)

lemma generate_upto_prefix:
  "m \<le> n \<Longrightarrow> \<exists>rest. generate_upto cs ns ds n = generate_upto cs ns ds m @ rest"
proof (induction n)
  case 0
  then show ?case by simp
next
  case (Suc n)
  show ?case
  proof (cases "m = Suc n")
    case True
    then show ?thesis by simp
  next
    case False
    with Suc obtain rest where "generate_upto cs ns ds n = generate_upto cs ns ds m @ rest"
      by auto
    then show ?thesis
      by (auto simp: generate_upto_Suc generate_step_def Let_def)
  qed
qed

lemma separator_single:
  "0 \<le> d \<Longrightarrow> d < 6 \<Longrightarrow> \<exists>c. SEPARATORS ! nat d = [c]"
proof -
  assume "0 \<le> d" "d < 6"
  then have "d = 0 \<or> d = 1 \<or> d = 2 \<or> d = 3 \<or> d = 4 \<or> d = 5" by arith
  then show ?thesis by (auto simp: SEPARATORS_def)
qed

lemma indexOf_separator:
  "0 \<le> d \<Longrightarrow> d < 6 \<Longrightarrow> indexOf SEPARATORS (SEPARATORS ! nat d) = d"
proof -
  assume "0 \<le> d" "d < 6"
  then have "d = 0 \<or> d = 1 \<or> d = 2 \<or> d = 3 \<or> d = 4 \<or> d = 5" by arith
  then show ?thesis by (auto simp: SEPARATORS_def)
qed

lemma decode_positions:
  assumes ds: "\<forall>d\<in>set ds. 0 \<le> d \<and> d < 6" and n: "n \<le> length ds" "int (length ds) \<le> ns"
  shows "fold (decode_step cs) [0 ..< n] (0, []) =
           (length (generate_upto cs ns ds n),
            map (\<lambda>i. length (generate_upto cs ns ds i) + length (cs ! i)) [0 ..< n])"
  using n
proof (induction n)
  case 0
  then show ?case by (simp add: generate_upto_def)
next
  case (Suc n)
  then have "ds ! n \<in> set ds" by simp
  with ds obtain c where "SEPARATORS ! nat (ds ! n) = [c]"
    using separator_single by blast
  with Suc show ?case
    by (simp add: generate_upto_Suc generate_step_def decode_step_def Let_def)
qed

lemma charAt_separator:
  assumes ds: "\<forall>d\<in>set ds. 0 \<le> d \<and> d < 6" and i: "i < length ds" "int (length ds) \<le> ns" "i < n"
  shows "charAt (generate_upto cs ns ds n) (length (generate_upto cs ns ds i) + length (cs ! i))
           = SEPARATORS ! nat (ds ! i)"
proof -
  from i have "ds ! i \<in> set ds" by simp
  with ds obtain c where c: "SEPARATORS ! nat (ds ! i) = [c]"
    using separator_single by blast
  from i have "Suc i \<le> n" by simp
  from generate_upto_prefix[OF this] obtain rest where
    "generate_upto cs ns ds n = generate_upto cs ns ds (Suc i) @ rest" by blast
  then have "generate_upto cs ns ds n = generate_upto cs ns ds i @ cs ! i @ c # rest"
    using i c by (simp add: generate_upto_Suc generate_step_def Let_def)
  then show ?thesis using c
    by (simp add: charAt_def nth_append)
qed

text \<open>
  Claim C1.  For every number \<open>k\<close> of separator slots (in particular 1, 2, 3 and 4), every
  list of \<open>k + 1\<close> chunks and every id with \<open>0 \<le> id < 6 ^ k\<close>, encoding returns a
  signature, and decoding that signature with the same chunks gives the id back.
\<close>

theorem codec_roundtrip:
  assumes len: "length chunks = Suc k" and n: "0 \<le> n" "n < 6 ^ k"
  shows "\<exists>sig. generateStealthSignature n chunks = Some sig \<and> decodeStealthSignature sig chunks = n"
proof -
  from intToBaseNArray_in_range[OF n] obtain ds where
    ds: "intToBaseNArray n 6 (int k) = Some ds" "length ds = k"
        "\<forall>d\<in>set ds. 0 \<le> d \<and> d < 6" "fromDigits 6 ds = n"
    by blast
  let ?sig = "generate_upto chunks (int k) ds (Suc k)"
  have g: "generateStealthSignature n chunks = Some ?sig"
    using ds(1) len by (simp add: generateStealthSignature_def SEPARATORS_def generate_upto_def Let_def)
  have "separatorIndices chunks =
          map (\<lambda>i. length (generate_upto chunks (int k) ds i) + length (chunks ! i)) [0 ..< k]"
    using decode_positions[OF ds(3), of k "int k" chunks] ds(2) len
    by (simp add: separatorIndices_def)
  then have "map (indexOf SEPARATORS) (map (charAt ?sig) (separatorIndices chunks))
               = map (\<lambda>i. ds ! i) [0 ..< k]"
    using ds(2,3) by (auto simp: charAt_separator indexOf_separator)
  also have "\<dots> = ds" using map_nth[of ds] ds(2) by simp
  finally have "decodeStealthSignature ?sig chunks = fromDigits 6 ds"
    by (simp add: decodeStealthSignature_def fromDigits_def SEPARATORS_def Let_def)
  with g ds(4) show ?thesis by simp
qed

theorem codec_roundtrip_witness:
  "length defaultChunks = Suc 3 \<and> (0::int) \<le> 42 \<and> (42::int) < 6 ^ 3 \<and>
   (\<exists>sig. generateStealthSignature 42 defaultChunks = Some sig
      \<and> decodeStealthSignature sig defaultChunks = 42)"
  using codec_roundtrip[of defaultChunks 3 42] by (simp add: defaultChunks_def)

lemma digits_216: "intToBaseNArray 216 6 3 = Some [1, 0, 0, 0]"
  by (simp add: intToBaseNArray_def intToBaseNArray_convert.simps intToBaseNArray_pad.simps)

lemma digits_36: "intToBaseNArray 36 6 3 = Some [1, 0, 0]"
  by (simp add: intToBaseNArray_def intToBaseNArray_convert.simps intToBaseNArray_pad.simps)

lemma separatorIndices_default: "separatorIndices defaultChunks = [13, 23, 38]"
  by (simp add: separatorIndices_def defaultChunks_def decode_step_def str_def)


lemma generateStealthSignature_returns:
  "\<exists>sig. generateStealthSignature n chunks = Some sig"
proof -
  from convert_returns[of 6 n "[]"] obtain r where "intToBaseNArray_convert n 6 [] = Some r"
    by auto
  then show ?thesis
    by (simp add: generateStealthSignature_def intToBaseNArray_def SEPARATORS_def Let_def)
qed

text \<open>
  Claim C2 says that an id of at least \<open>6 ^ k\<close> is refused.  The code refuses nothing:
  encoding returns a signature for every id and every chunk list.  The digit array of
  216 has four digits, the loop writes the separators of the first three, and the
  signature is the one of 36, which decodes to 36.
\<close>

theorem encode_overflow_not_rejected:
  "(\<exists>sig. generateStealthSignature n chunks = Some sig)
   \<and> (\<exists>sig. generateStealthSignature 216 defaultChunks = Some sig
      \<and> generateStealthSignature 36 defaultChunks = Some sig
      \<and> decodeStealthSignature sig defaultChunks = 36)"
proof -
  let ?sig = "str '' Larry Velez '' @ [166] @ str '' kogi.ai '' @ [124] @ str '' 212-380-1014 '' @ [124] @ str '' ''"
  have a: "generateStealthSignature 216 defaultChunks = Some ?sig"
    by (simp add: generateStealthSignature_def SEPARATORS_def digits_216 generate_step_def defaultChunks_def)
  have b: "generateStealthSignature 36 defaultChunks = Some ?sig"
    by (simp add: generateStealthSignature_def SEPARATORS_def digits_36 generate_step_def defaultChunks_def)
  have c: "decodeStealthSignature ?sig defaultChunks = 36"
    by (simp add: decodeStealthSignature_def separatorIndices_default charAt_def SEPARATORS_def str_def)
  from a b c generateStealthSignature_returns[of n chunks] show ?thesis by blast
qed


text \<open>
  Claim C6 says that a signature with a foreign character at a separator offset, or one
  too short to have that offset, is refused.  The code has no such check: \<open>indexOf\<close>
  gives \<open>-1\<close> and the loop computes with it.  A reply whose second separator became
  \<open>X\<close> decodes to 30, and the empty text decodes to \<open>-43\<close>.
\<close>

theorem decode_foreign_separator_returns:
  "charAt (str '' Larry Velez '' @ [166] @ str '' kogi.ai X 212-380-1014 | '') 23 = str ''X''
   \<and> str ''X'' \<notin> set SEPARATORS
   \<and> decodeStealthSignature (str '' Larry Velez '' @ [166] @ str '' kogi.ai X 212-380-1014 | '')
         defaultChunks = 30
   \<and> decodeStealthSignature [] defaultChunks = - 43"
  by (simp add: decodeStealthSignature_def separatorIndices_default charAt_def SEPARATORS_def str_def)


section \<open>Rounding to doubles\<close>

lemma two_powr: "(2::real) powr of_int k = 2 powi k"
  by (simp add: powr_real_of_int')

lemma fl_eval:
  assumes "2 powi k \<le> \<bar>x\<bar>" "\<bar>x\<bar> < 2 powi (k + 1)"
  shows "fl x = sgn x * of_int (round_half_even (\<bar>x\<bar> / 2 powi (k - 52))) * 2 powi (k - 52)"
proof -
  have "(0::real) < 2 powi k" by simp
  with assms(1) have pos: "0 < \<bar>x\<bar>" by linarith
  then have "\<lfloor>log 2 \<bar>x\<bar>\<rfloor> = k"
    using assms by (simp add: floor_log_eq_powr_iff two_powr del: of_int_add)
  with pos show ?thesis by (simp add: fl_def Let_def)
qed


lemma round_half_even_bounds:
  "\<lfloor>m\<rfloor> \<le> round_half_even m" "round_half_even m \<le> \<lfloor>m\<rfloor> + 1"
  by (simp_all add: round_half_even_def Let_def)

lemma round_half_even_of_int: "round_half_even (of_int n) = n"
  by (simp add: round_half_even_def)

lemma round_half_even_mono:
  assumes "a \<le> b"
  shows "round_half_even a \<le> round_half_even b"
proof (cases "\<lfloor>a\<rfloor> = \<lfloor>b\<rfloor>")
  case True
  with assms show ?thesis
    by (auto simp: round_half_even_def Let_def)
next
  case False
  with assms have "\<lfloor>a\<rfloor> + 1 \<le> \<lfloor>b\<rfloor>" using floor_mono[OF assms] by linarith
  with round_half_even_bounds(2)[of a] round_half_even_bounds(1)[of b] show ?thesis by linarith
qed

lemma round_half_even_le: "m \<le> of_int n \<Longrightarrow> round_half_even m \<le> n"
  using round_half_even_mono[of m "of_int n"] by (simp add: round_half_even_of_int)

lemma round_half_even_ge: "of_int n \<le> m \<Longrightarrow> n \<le> round_half_even m"
  using round_half_even_mono[of "of_int n" m] by (simp add: round_half_even_of_int)

lemma fl_zero: "fl 0 = 0"
  by (simp add: fl_def)

lemma fl_minus: "fl (- x) = - fl x"
  by (simp add: fl_def Let_def)

lemma log2_bounds:
  assumes "0 < x"
  shows "2 powi \<lfloor>log 2 x\<rfloor> \<le> x" "x < 2 powi (\<lfloor>log 2 x\<rfloor> + 1)"
proof -
  have "\<lfloor>log 2 x\<rfloor> = \<lfloor>log 2 x\<rfloor>" ..
  then have "2 powr of_int \<lfloor>log 2 x\<rfloor> \<le> x \<and> x < 2 powr of_int (\<lfloor>log 2 x\<rfloor> + 1)"
    using assms by (subst (asm) floor_log_eq_powr_iff) simp_all
  then show "2 powi \<lfloor>log 2 x\<rfloor> \<le> x" "x < 2 powi (\<lfloor>log 2 x\<rfloor> + 1)"
    by (simp_all only: two_powr)
qed

lemma fl_pos_eq: "0 < x \<Longrightarrow>
    fl x = of_int (round_half_even (x / 2 powi (\<lfloor>log 2 x\<rfloor> - 52))) * 2 powi (\<lfloor>log 2 x\<rfloor> - 52)"
  by (simp add: fl_def Let_def)

lemma fl_pos_bounds:
  assumes "0 < x"
  shows "2 powi \<lfloor>log 2 x\<rfloor> \<le> fl x" "fl x \<le> 2 powi (\<lfloor>log 2 x\<rfloor> + 1)"
proof -
  let ?E = "\<lfloor>log 2 x\<rfloor>"
  let ?u = "(2::real) powi (?E - 52)"
  have u: "0 < ?u" by simp
  have p: "(2::real) powi ?E = 2 ^ 52 * ?u" "(2::real) powi (?E + 1) = 2 ^ 53 * ?u"
    by (simp_all add: power_int_diff power_int_add)
  from log2_bounds[OF assms] have "2 ^ 52 * ?u \<le> x" "x < 2 ^ 53 * ?u" by (simp_all only: p)
  with u have "2 ^ 52 \<le> x / ?u" "x / ?u \<le> 2 ^ 53"
    by (simp_all add: pos_le_divide_eq pos_divide_le_eq)
  then have "of_int (2 ^ 52) \<le> x / ?u" "x / ?u \<le> of_int (2 ^ 53)" by simp_all
  then have "2 ^ 52 \<le> round_half_even (x / ?u)" "round_half_even (x / ?u) \<le> 2 ^ 53"
    by (simp_all only: round_half_even_ge round_half_even_le)
  then have "(2::real) ^ 52 \<le> of_int (round_half_even (x / ?u))"
    "of_int (round_half_even (x / ?u)) \<le> (2::real) ^ 53"
    by (metis of_int_le_iff of_int_numeral of_int_power)+
  with u have "2 ^ 52 * ?u \<le> of_int (round_half_even (x / ?u)) * ?u"
    "of_int (round_half_even (x / ?u)) * ?u \<le> 2 ^ 53 * ?u"
    by (simp_all add: mult_right_mono)
  then show "2 powi ?E \<le> fl x" "fl x \<le> 2 powi (?E + 1)"
    unfolding fl_pos_eq[OF assms] p by simp_all
qed

lemma fl_pos: "0 < x \<Longrightarrow> 0 < fl x"
proof -
  assume "0 < x"
  from fl_pos_bounds(1)[OF this] have "2 powi \<lfloor>log 2 x\<rfloor> \<le> fl x" .
  moreover have "(0::real) < 2 powi \<lfloor>log 2 x\<rfloor>" by simp
  ultimately show ?thesis by linarith
qed

lemma fl_mono_pos:
  assumes "0 < x" "x \<le> y"
  shows "fl x \<le> fl y"
proof -
  from assms have y: "0 < y" by simp
  from assms have "log 2 x \<le> log 2 y" by simp
  then have E: "\<lfloor>log 2 x\<rfloor> \<le> \<lfloor>log 2 y\<rfloor>" by (rule floor_mono)
  show ?thesis
  proof (cases "\<lfloor>log 2 x\<rfloor> = \<lfloor>log 2 y\<rfloor>")
    case True
    let ?u = "(2::real) powi (\<lfloor>log 2 y\<rfloor> - 52)"
    have u: "0 < ?u" by simp
    with assms(2) have "x / ?u \<le> y / ?u" by (simp add: divide_right_mono)
    then have "round_half_even (x / ?u) \<le> round_half_even (y / ?u)"
      by (rule round_half_even_mono)
    then have "of_int (round_half_even (x / ?u)) * ?u \<le> of_int (round_half_even (y / ?u)) * ?u"
      using u by (simp add: mult_right_mono)
    then show ?thesis
      unfolding fl_pos_eq[OF assms(1)] fl_pos_eq[OF y] True .
  next
    case False
    with E have "\<lfloor>log 2 x\<rfloor> + 1 \<le> \<lfloor>log 2 y\<rfloor>" by simp
    then have "(2::real) powi (\<lfloor>log 2 x\<rfloor> + 1) \<le> 2 powi \<lfloor>log 2 y\<rfloor>"
      by (intro power_int_increasing) simp_all
    with fl_pos_bounds(2)[OF assms(1)] fl_pos_bounds(1)[OF y] show ?thesis by linarith
  qed
qed

lemma fl_mono:
  assumes "x \<le> y"
  shows "fl x \<le> fl y"
proof -
  consider "0 < x" | "x \<le> 0" "0 \<le> y" | "y < 0" by linarith
  then show ?thesis
  proof cases
    case 1
    then show ?thesis using assms by (rule fl_mono_pos)
  next
    case 2
    have "fl x \<le> 0"
    proof (cases "x = 0")
      case True
      then show ?thesis by (simp add: fl_zero)
    next
      case False
      with 2 have "0 < - x" by simp
      from fl_pos[OF this] show ?thesis by (simp add: fl_minus)
    qed
    moreover have "0 \<le> fl y"
    proof (cases "y = 0")
      case True
      then show ?thesis by (simp add: fl_zero)
    next
      case False
      with 2 have "0 < y" by simp
      from fl_pos[OF this] show ?thesis by simp
    qed
    ultimately show ?thesis by linarith
  next
    case 3
    with assms have "0 < - y" "- y \<le> - x" by simp_all
    from fl_mono_pos[OF this] show ?thesis by (simp add: fl_minus)
  qed
qed

lemma fl_one: "fl 1 = 1"
  by (subst fl_eval[of "0"]) (simp_all add: round_half_even_def Let_def)

lemma fl_nonneg: "0 \<le> x \<Longrightarrow> 0 \<le> fl x"
  using fl_mono[of 0 x] by (simp add: fl_zero)

lemma fl_nonpos: "x \<le> 0 \<Longrightarrow> fl x \<le> 0"
  using fl_mono[of x 0] by (simp add: fl_zero)


section \<open>The score of a contact\<close>


lemma spec_meetingFrequency_Some:
  "normalizeMeetingFrequency n = spec_meetingFrequency (Some n)"
proof -
  consider "n \<le> 0" | "0 < n" "n < 20" | "20 \<le> n" by linarith
  then show ?thesis
  proof cases
    case 1
    then have "fl (real_of_int n / 20) \<le> 0" by (intro fl_nonpos) simp
    with 1 show ?thesis
      by (simp add: normalizeMeetingFrequency_def spec_meetingFrequency_def)
  next
    case 2
    then have "0 \<le> fl (real_of_int n / 20)" by (intro fl_nonneg) simp
    moreover from 2 have "fl (real_of_int n / 20) \<le> fl 1" by (intro fl_mono) simp
    ultimately show ?thesis using 2
      by (simp add: normalizeMeetingFrequency_def spec_meetingFrequency_def fl_one)
  next
    case 3
    then have "fl 1 \<le> fl (real_of_int n / 20)" by (intro fl_mono) simp
    with 3 show ?thesis
      by (simp add: normalizeMeetingFrequency_def spec_meetingFrequency_def fl_one)
  qed
qed


















lemma obs_types_distinct: "communication_metrics \<noteq> importance_metrics"
  by (simp add: communication_metrics_def importance_metrics_def str_def)

lemma example_contact_observations:
  "findObservation example_contact communication_metrics = Some example_metrics"
  "findObservation example_contact importance_metrics = Some example_importance"
  using obs_types_distinct
  by (simp_all add: findObservation_def example_contact_def example_metrics_def
        example_importance_def)













lemma Math_log_100: "1 \<le> Math_log 100"
proof -
  have "exp 1 \<le> (3::real)" by (rule exp_le)
  then have "exp 1 \<le> (100::real)" by simp
  then have "1 \<le> ln (100::real)" by (simp add: ln_ge_iff)
  then have "fl 1 \<le> fl (ln 100)" by (rule fl_mono)
  then show ?thesis by (simp add: Math_log_def fl_one)
qed

lemma Math_log_mono: "0 < a \<Longrightarrow> a \<le> b \<Longrightarrow> Math_log a \<le> Math_log b"
  unfolding Math_log_def by (intro fl_mono) simp

lemma Math_log_nonneg: "1 \<le> a \<Longrightarrow> 0 \<le> Math_log a"
  unfolding Math_log_def by (intro fl_nonneg) simp

lemma normalizeFrequency_mono:
  assumes ab: "a \<le> b"
  shows "normalizeFrequency a \<le> normalizeFrequency b"
proof -
  define q where "q n = fl (Math_log (real_of_int n) / Math_log 100)" for n :: int
  have nf: "normalizeFrequency n = (if n \<le> 0 then 0 else if n \<ge> 100 then 1 else q n)" for n
    by (simp add: normalizeFrequency_def q_def)
  have pos: "0 < Math_log 100" using Math_log_100 by linarith
  have q0: "0 \<le> q n" if "1 \<le> n" for n
  proof -
    from that have "0 \<le> Math_log (real_of_int n)" by (intro Math_log_nonneg) simp
    with pos have "0 \<le> Math_log (real_of_int n) / Math_log 100" by simp
    then show ?thesis unfolding q_def by (rule fl_nonneg)
  qed
  have q1: "q n \<le> 1" if "1 \<le> n" "n \<le> 100" for n
  proof -
    from that have "Math_log (real_of_int n) \<le> Math_log 100"
      using Math_log_mono[of "real_of_int n" 100] by simp
    with pos have "Math_log (real_of_int n) / Math_log 100 \<le> 1" by simp
    then have "fl (Math_log (real_of_int n) / Math_log 100) \<le> fl 1" by (rule fl_mono)
    then show ?thesis by (simp add: q_def fl_one)
  qed
  have qm: "q m \<le> q n" if "1 \<le> m" "m \<le> n" for m n
  proof -
    from that have "Math_log (real_of_int m) \<le> Math_log (real_of_int n)"
      by (intro Math_log_mono) simp_all
    with pos have "Math_log (real_of_int m) / Math_log 100 \<le> Math_log (real_of_int n) / Math_log 100"
      by (simp add: divide_right_mono)
    then show ?thesis unfolding q_def by (rule fl_mono)
  qed
  consider "a \<le> 0" | "0 < a" "b \<ge> 100" | "0 < a" "b < 100" by linarith
  then show ?thesis
  proof cases
    case 1
    then show ?thesis using q0[of b] by (simp add: nf)
  next
    case 2
    then show ?thesis using q1[of a] by (simp add: nf)
  next
    case 3
    then show ?thesis using ab qm[of a b] by (simp add: nf)
  qed
qed

lemma normalizeMeetingFrequency_mono:
  assumes "a \<le> b"
  shows "normalizeMeetingFrequency a \<le> normalizeMeetingFrequency b"
proof -
  from assms have "fl (real_of_int a / 20) \<le> fl (real_of_int b / 20)"
    by (intro fl_mono) simp
  then show ?thesis
    by (simp add: spec_meetingFrequency_Some spec_meetingFrequency_def)
qed

lemma normalizeRecency_antimono:
  assumes "now - t \<le> now - t'"
  shows "normalizeRecency now (Some t') \<le> normalizeRecency now (Some t)"
proof -
  define d :: "int \<Rightarrow> real" where
    "d s = max 0 (fl (real_of_int (now - s) / (1000 * 60 * 60 * 24)))" for s
  have r: "normalizeRecency now (Some s) = max 0 (fl (1 - fl (d s / 365)))" for s
    by (simp add: normalizeRecency_def d_def Let_def)
  from assms have "real_of_int (now - t) \<le> real_of_int (now - t')" by linarith
  then have "real_of_int (now - t) / (1000 * 60 * 60 * 24)
               \<le> real_of_int (now - t') / (1000 * 60 * 60 * 24)"
    by (rule divide_right_mono) simp
  then have "fl (real_of_int (now - t) / (1000 * 60 * 60 * 24))
               \<le> fl (real_of_int (now - t') / (1000 * 60 * 60 * 24))"
    by (rule fl_mono)
  then have "d t \<le> d t'" unfolding d_def by linarith
  then have "d t / 365 \<le> d t' / 365" by (rule divide_right_mono) simp
  then have "fl (d t / 365) \<le> fl (d t' / 365)" by (rule fl_mono)
  then have "1 - fl (d t' / 365) \<le> 1 - fl (d t / 365)" by simp
  then have "fl (1 - fl (d t' / 365)) \<le> fl (1 - fl (d t / 365))" by (rule fl_mono)
  then show ?thesis unfolding r by linarith
qed

lemma totalScore_fold_mono:
  assumes w: "\<And>f w. (f, w) \<in> set ws \<Longrightarrow> 0 \<le> w"
    and s: "\<And>f. s f \<le> s' f" and a: "a \<le> a'"
  shows "fold (\<lambda>(f, weight) total. fl (total + fl (s f * weight))) ws a
           \<le> fold (\<lambda>(f, weight) total. fl (total + fl (s' f * weight))) ws a'"
  using w a
proof (induction ws arbitrary: a a')
  case Nil
  then show ?case by simp
next
  case (Cons p ws)
  obtain f w where p: "p = (f, w)" by (cases p)
  with Cons.prems(1)[of f w] have "0 \<le> w" by simp
  with s[of f] have "s f * w \<le> s' f * w" by (rule mult_right_mono)
  then have "fl (s f * w) \<le> fl (s' f * w)" by (rule fl_mono)
  with Cons.prems(2) have "a + fl (s f * w) \<le> a' + fl (s' f * w)" by linarith
  then have step: "fl (a + fl (s f * w)) \<le> fl (a' + fl (s' f * w))" by (rule fl_mono)
  have rest: "0 \<le> w'" if "(f', w') \<in> set ws" for f' w'
    using Cons.prems(1)[of f' w'] that by simp
  from Cons.IH[OF rest step] p show ?case by simp
qed

lemma defaultWeights_nonneg: "(f, w) \<in> set defaultWeights \<Longrightarrow> 0 \<le> w"
  by (auto simp: defaultWeights_def intro: fl_nonneg)

lemma computeScore_mono:
  assumes "\<And>f. scores now m i f \<le> scores now' m' i' f"
  shows "computeScore now defaultWeights m i \<le> computeScore now' defaultWeights m' i'"
proof -
  have "totalScore now defaultWeights m i \<le> totalScore now' defaultWeights m' i'"
    unfolding totalScore_def
    by (rule totalScore_fold_mono) (simp_all add: defaultWeights_nonneg assms)
  then have "fl (totalScore now defaultWeights m i * 100) \<le> fl (totalScore now' defaultWeights m' i' * 100)"
    by (intro fl_mono) simp
  then show ?thesis
    by (simp add: computeScore_def Math_round_def floor_mono)
qed

text \<open>
  Claim C8.  With the default weights and the other fields fixed, the score does not
  fall when \<open>emailCount\<close>, \<open>responseRate\<close>, \<open>meetingCount\<close> or \<open>manualPriority\<close> rises (an
  absent field counts as 0), and does not rise when the time since \<open>lastContacted\<close> grows.
\<close>

theorem score_monotone:
  "(orZero (emailCount m) \<le> orZero e \<longrightarrow>
      computeScore now defaultWeights m i \<le> computeScore now defaultWeights (m\<lparr>emailCount := e\<rparr>) i)
   \<and> (orZero (responseRate m) \<le> orZero r \<longrightarrow>
      computeScore now defaultWeights m i \<le> computeScore now defaultWeights (m\<lparr>responseRate := r\<rparr>) i)
   \<and> (orZero (meetingCount m) \<le> orZero c \<longrightarrow>
      computeScore now defaultWeights m i \<le> computeScore now defaultWeights (m\<lparr>meetingCount := c\<rparr>) i)
   \<and> (orZero (manualPriority i) \<le> orZero p \<longrightarrow>
      computeScore now defaultWeights m i \<le> computeScore now defaultWeights m (i\<lparr>manualPriority := p\<rparr>))
   \<and> (lastContacted m = Some t \<and> now - t \<le> now - t' \<longrightarrow>
      computeScore now defaultWeights (m\<lparr>lastContacted := Some t'\<rparr>) i \<le> computeScore now defaultWeights m i)"
proof (intro conjI impI)
  assume "orZero (emailCount m) \<le> orZero e"
  then have "scores now m i f \<le> scores now (m\<lparr>emailCount := e\<rparr>) i f" for f
    by (cases f) (simp_all add: normalizeFrequency_mono)
  then show "computeScore now defaultWeights m i \<le> computeScore now defaultWeights (m\<lparr>emailCount := e\<rparr>) i"
    by (rule computeScore_mono)
next
  assume "orZero (responseRate m) \<le> orZero r"
  then have "scores now m i f \<le> scores now (m\<lparr>responseRate := r\<rparr>) i f" for f
    by (cases f) simp_all
  then show "computeScore now defaultWeights m i \<le> computeScore now defaultWeights (m\<lparr>responseRate := r\<rparr>) i"
    by (rule computeScore_mono)
next
  assume "orZero (meetingCount m) \<le> orZero c"
  then have "scores now m i f \<le> scores now (m\<lparr>meetingCount := c\<rparr>) i f" for f
    by (cases f) (simp_all add: normalizeMeetingFrequency_mono)
  then show "computeScore now defaultWeights m i \<le> computeScore now defaultWeights (m\<lparr>meetingCount := c\<rparr>) i"
    by (rule computeScore_mono)
next
  assume "orZero (manualPriority i) \<le> orZero p"
  then have "fl (orZero (manualPriority i) / 10) \<le> fl (orZero p / 10)"
    by (intro fl_mono) simp
  then have "scores now m i f \<le> scores now m (i\<lparr>manualPriority := p\<rparr>) f" for f
    by (cases f) simp_all
  then show "computeScore now defaultWeights m i \<le> computeScore now defaultWeights m (i\<lparr>manualPriority := p\<rparr>)"
    by (rule computeScore_mono)
next
  assume a: "lastContacted m = Some t \<and> now - t \<le> now - t'"
  then have "scores now (m\<lparr>lastContacted := Some t'\<rparr>) i f \<le> scores now m i f" for f
    by (cases f) (simp_all add: normalizeRecency_antimono)
  then show "computeScore now defaultWeights (m\<lparr>lastContacted := Some t'\<rparr>) i \<le> computeScore now defaultWeights m i"
    by (rule computeScore_mono)
qed

theorem score_monotone_witness:
  "orZero (emailCount example_metrics) \<le> orZero (Some 46)
   \<and> computeScore example_now defaultWeights example_metrics example_importance
       \<le> computeScore example_now defaultWeights (example_metrics\<lparr>emailCount := Some 46\<rparr>)
            example_importance
   \<and> orZero (responseRate example_metrics) \<le> orZero (Some 0.9)
   \<and> computeScore example_now defaultWeights example_metrics example_importance
       \<le> computeScore example_now defaultWeights (example_metrics\<lparr>responseRate := Some 0.9\<rparr>)
            example_importance
   \<and> orZero (meetingCount example_metrics) \<le> orZero (Some 13)
   \<and> computeScore example_now defaultWeights example_metrics example_importance
       \<le> computeScore example_now defaultWeights (example_metrics\<lparr>meetingCount := Some 13\<rparr>)
            example_importance
   \<and> orZero (manualPriority example_importance) \<le> orZero (Some 10)
   \<and> computeScore example_now defaultWeights example_metrics example_importance
       \<le> computeScore example_now defaultWeights example_metrics
            (example_importance\<lparr>manualPriority := Some 10\<rparr>)
   \<and> lastContacted example_metrics = Some 0 \<and> example_now - 0 \<le> example_now - (- 86400000)
   \<and> computeScore example_now defaultWeights
         (example_metrics\<lparr>lastContacted := Some (- 86400000)\<rparr>) example_importance
       \<le> computeScore example_now defaultWeights example_metrics example_importance"
proof -
  have h: "orZero (emailCount example_metrics) \<le> orZero (Some 46)"
    "orZero (responseRate example_metrics) \<le> orZero (Some 0.9)"
    "orZero (meetingCount example_metrics) \<le> orZero (Some 13)"
    "orZero (manualPriority example_importance) \<le> orZero (Some 10)"
    "lastContacted example_metrics = Some 0 \<and> example_now - 0 \<le> example_now - (- 86400000)"
    by (simp_all add: example_metrics_def example_importance_def orZero_def)
  from score_monotone[of example_metrics "Some 46" example_now example_importance "Some 0.9"
      "Some 13" "Some 10" 0 "- 86400000"] h
  show ?thesis by blast
qed


section \<open>What scoring leaves unchanged\<close>

lemma obs_frame_refl: "obs_frame ob ob"
  by (simp add: obs_frame_def same_but_score_def)

lemma obs_frame_update_first:
  "list_all2 obs_frame obs
     (update_first (\<lambda>ob. obs_type ob = importance_metrics) (\<lambda>ob. ob\<lparr>calculatedScore := v\<rparr>) obs)"
proof (induction obs)
  case Nil
  then show ?case by simp
next
  case (Cons ob obs)
  have "list_all2 obs_frame obs obs"
    by (simp add: list_all2_same obs_frame_refl)
  moreover have "obs_type ob = importance_metrics \<Longrightarrow> obs_frame ob (ob\<lparr>calculatedScore := v\<rparr>)"
    by (simp add: obs_frame_def same_but_score_def)
  ultimately show ?case using Cons by (simp add: obs_frame_refl)
qed

lemma entity_frame_refl: "entity_frame e e"
  by (simp add: entity_frame_def list_all2_same obs_frame_refl)

lemma scoreContact_frame:
  assumes c: "entityType e = Contact"
  shows "entity_frame e (scoreContact now ws e)"
proof (cases "findObservation e communication_metrics")
  case None
  then have "scoreContact now ws e = e" by (simp add: scoreContact_def)
  then show ?thesis by (simp add: entity_frame_refl)
next
  case m: (Some m)
  show ?thesis
  proof (cases "findObservation e importance_metrics")
    case None
    with m have "scoreContact now ws e = e" by (simp add: scoreContact_def)
    then show ?thesis by (simp add: entity_frame_refl)
  next
    case (Some i)
    with m c show ?thesis
      by (simp add: scoreContact_def entity_frame_def obs_frame_update_first)
  qed
qed

text \<open>
  Claim C10.  \<open>calculateImportanceScores\<close> keeps the relationship list, the keys and the
  order of the store; in an entity it changes at most the \<open>calculatedScore\<close> of
  observations of type \<open>importance_metrics\<close>; an entity that is not a Contact, and a
  Contact without a \<open>communication_metrics\<close> or an \<open>importance_metrics\<close> observation, is
  unchanged.
\<close>

theorem scoring_frame:
  "relationships (calculateImportanceScores now ws g) = relationships g
   \<and> list_all2 entry_frame (entities g) (entities (calculateImportanceScores now ws g))"
proof -
  have "entry_frame p (case p of (k, e) \<Rightarrow> (k, if entityType e = Contact then scoreContact now ws e else e))"
    for p :: "jsstring \<times> entity"
    by (cases p) (simp add: entry_frame_def entity_frame_refl scoreContact_frame)
  then have "list_all2 entry_frame (entities g)
          (map (\<lambda>(k, e). (k, if entityType e = Contact then scoreContact now ws e else e)) (entities g))"
    by (simp add: list_all2_map2 list_all2_same)
  then show ?thesis by (simp add: calculateImportanceScores_def)
qed

lemma entry_frame_keys: "list_all2 entry_frame xs ys \<Longrightarrow> map fst ys = map fst xs"
  by (induction rule: list_all2_induct) (simp_all add: entry_frame_def)

theorem scoring_frame_witness:
  "relationships (calculateImportanceScores example_now defaultWeights example_graph)
     = relationships example_graph
   \<and> map fst (entities (calculateImportanceScores example_now defaultWeights example_graph))
       = [str ''contact_1'', str ''contact_2'', str ''org_1'']
   \<and> findObservation example_unscored communication_metrics = None
   \<and> snd (entities (calculateImportanceScores example_now defaultWeights example_graph) ! 1)
       = example_unscored
   \<and> entityType example_organization \<noteq> Contact
   \<and> snd (entities (calculateImportanceScores example_now defaultWeights example_graph) ! 2)
       = example_organization
   \<and> hd (observations
           (snd (entities (calculateImportanceScores example_now defaultWeights example_graph) ! 0)))
       = example_metrics"
proof -
  let ?g = "calculateImportanceScores example_now defaultWeights example_graph"
  from scoring_frame[of example_now defaultWeights example_graph]
  have r: "relationships ?g = relationships example_graph"
    and l: "list_all2 entry_frame (entities example_graph) (entities ?g)" by simp_all
  from l have f: "entry_frame (entities example_graph ! j) (entities ?g ! j)" if "j < 3" for j
    using that by (simp add: list_all2_nthD example_graph_def)
  have u: "findObservation example_unscored communication_metrics = None"
    using obs_types_distinct
    by (simp add: findObservation_def example_unscored_def example_importance_def)
  have o: "entityType example_organization \<noteq> Contact"
    by (simp add: example_organization_def Contact_def str_def)
  from entry_frame_keys[OF l] have keys:
    "map fst (entities ?g) = [str ''contact_1'', str ''contact_2'', str ''org_1'']"
    by (simp add: example_graph_def)
  from f[of 1] u have 1: "snd (entities ?g ! 1) = example_unscored"
    by (simp add: entry_frame_def entity_frame_def example_graph_def)
  from f[of 2] o have 2: "snd (entities ?g ! 2) = example_organization"
    by (simp add: entry_frame_def entity_frame_def example_graph_def)
  from f[of 0] have "list_all2 obs_frame (observations example_contact)
       (observations (snd (entities ?g ! 0)))"
    by (simp add: entry_frame_def entity_frame_def example_graph_def)
  then obtain ob obs where "observations (snd (entities ?g ! 0)) = ob # obs"
    and "obs_frame example_metrics ob"
    by (auto simp: example_contact_def list_all2_Cons1)
  then have 0: "hd (observations (snd (entities ?g ! 0))) = example_metrics"
    using obs_types_distinct by (simp add: obs_frame_def example_metrics_def)
  from r keys u 1 o 2 0 show ?thesis by blast
qed


section \<open>The ranking\<close>

lemma filter_take_prefix: "\<exists>rest. filter P xs = filter P (take n xs) @ rest"
proof -
  have "filter P xs = filter P (take n xs @ drop n xs)" by simp
  also have "\<dots> = filter P (take n xs) @ filter P (drop n xs)" by (rule filter_append)
  finally show ?thesis by blast
qed

text \<open>
  Claim C4 asks that contacts with equal scores come in ascending order of their ids.
  The comparator of \<open>getTopContacts\<close> looks at the scores only, and the stable sort keeps
  the order of the store for equal scores: with \<open>contact_2\<close> stored before \<open>contact_1\<close>
  and equal scores, \<open>contact_2\<close> is ranked first.
\<close>

theorem ranking_tie_counterexample:
  "\<not> ranked_by_score_then_id (getTopContacts tie_graph 2)"
proof -
  have s: "scoreOf example_contact = 0" "scoreOf (example_contact\<lparr>ent_id := str ''contact_2''\<rparr>) = 0"
    using obs_types_distinct
    by (simp_all add: scoreOf_def findObservation_def example_contact_def example_metrics_def
          example_importance_def orZero_def)
  have "findEntitiesByType tie_graph Contact
          = [example_contact\<lparr>ent_id := str ''contact_2''\<rparr>, example_contact]"
    by (simp add: findEntitiesByType_def tie_graph_def example_contact_def)
  then have "getTopContacts tie_graph 2
          = [example_contact\<lparr>ent_id := str ''contact_2''\<rparr>, example_contact]"
    by (simp add: getTopContacts_def slice0_def s)
  moreover have "\<not> js_string_le (str ''contact_2'') (ent_id example_contact)"
    by (simp add: str_def example_contact_def)
  ultimately show ?thesis
    by (simp add: ranks_before_def s)
qed

text \<open>
  Claim C4 as the code has it.  For \<open>n \<ge> 0\<close>, \<open>getTopContacts\<close> returns the first \<open>n\<close> (or
  all, if there are fewer) of the Contacts, ordered by descending score, an absent score
  counting as 0; contacts with the same score \<open>s\<close> keep the order in which the store
  enumerates them.  The result is a function of the store and \<open>n\<close>, so a repeated call on
  an unchanged store returns the same list.
\<close>

theorem ranking_order:
  assumes n: "0 \<le> n"
  shows "length (getTopContacts g n) = min (nat n) (length (findEntitiesByType g Contact))
    \<and> set (getTopContacts g n) \<subseteq> set (findEntitiesByType g Contact)
    \<and> sorted_wrt (\<lambda>a b. scoreOf b \<le> scoreOf a) (getTopContacts g n)
    \<and> (\<exists>rest. filter (\<lambda>e. scoreOf e = s) (findEntitiesByType g Contact)
                = filter (\<lambda>e. scoreOf e = s) (getTopContacts g n) @ rest)
    \<and> getTopContacts g n
        = take (nat n) (getTopContacts g (int (length (findEntitiesByType g Contact))))"
proof -
  let ?cs = "findEntitiesByType g Contact"
  let ?sorted = "sort_key (\<lambda>e. - scoreOf e) ?cs"
  have r: "getTopContacts g n = take (nat n) ?sorted"
    using n by (simp add: getTopContacts_def slice0_def Let_def)
  have full: "getTopContacts g (int (length ?cs)) = ?sorted"
    by (simp add: getTopContacts_def slice0_def Let_def)
  have 1: "length (getTopContacts g n) = min (nat n) (length ?cs)"
    by (simp add: r min.commute)
  have "set (take (nat n) ?sorted) \<subseteq> set ?sorted" by (rule set_take_subset)
  then have 2: "set (getTopContacts g n) \<subseteq> set ?cs" by (simp add: r)
  have "sorted (map (\<lambda>e. - scoreOf e) ?sorted)" by (rule sorted_sort_key)
  then have "sorted_wrt (\<lambda>a b. scoreOf b \<le> scoreOf a) ?sorted"
    by (simp add: sorted_map)
  then have 3: "sorted_wrt (\<lambda>a b. scoreOf b \<le> scoreOf a) (getTopContacts g n)"
    unfolding r by (rule sorted_wrt_take)
  have "filter (\<lambda>e. - scoreOf e = - s) ?sorted = filter (\<lambda>e. - scoreOf e = - s) ?cs"
    by (rule sort_key_stable)
  then have "filter (\<lambda>e. scoreOf e = s) ?cs = filter (\<lambda>e. scoreOf e = s) ?sorted" by simp
  with filter_take_prefix[of "\<lambda>e. scoreOf e = s" ?sorted "nat n"]
  have 4: "\<exists>rest. filter (\<lambda>e. scoreOf e = s) ?cs
                = filter (\<lambda>e. scoreOf e = s) (getTopContacts g n) @ rest"
    by (simp add: r)
  from 1 2 3 4 r full show ?thesis by simp
qed

theorem ranking_order_witness:
  "(0::int) \<le> 2
   \<and> length (getTopContacts tie_graph 2) = min (nat 2) (length (findEntitiesByType tie_graph Contact))
   \<and> set (getTopContacts tie_graph 2) \<subseteq> set (findEntitiesByType tie_graph Contact)
   \<and> sorted_wrt (\<lambda>a b. scoreOf b \<le> scoreOf a) (getTopContacts tie_graph 2)
   \<and> (\<exists>rest. filter (\<lambda>e. scoreOf e = 0) (findEntitiesByType tie_graph Contact)
                = filter (\<lambda>e. scoreOf e = 0) (getTopContacts tie_graph 2) @ rest)
   \<and> getTopContacts tie_graph 2
       = take (nat 2) (getTopContacts tie_graph (int (length (findEntitiesByType tie_graph Contact))))"
proof -
  have h: "(0::int) \<le> 2" by simp
  show ?thesis by (rule conjI[OF h ranking_order[OF h, of tie_graph 0]])
qed


section \<open>ISO weeks\<close>

lemma YearFromDay_search_correct:
  "DayFromYear y0 \<le> d \<Longrightarrow>
   DayFromYear (YearFromDay_search d y0) \<le> d \<and> d < DayFromYear (YearFromDay_search d y0 + 1)"
proof (induction d y0 rule: YearFromDay_search.induct)
  case (1 day y)
  show ?case
  proof (cases "DayFromYear (y + 1) \<le> day")
    case True
    with 1 show ?thesis by (subst (1 2) YearFromDay_search.simps) simp
  next
    case False
    with 1 show ?thesis by (subst (1 2) YearFromDay_search.simps) simp
  qed
qed

lemma DayFromYear_1970: "DayFromYear 1970 = 0"
  by (simp add: DayFromYear_def)

lemma DayFromYear_upper: "0 \<le> k \<Longrightarrow> DayFromYear (1970 + k) \<le> 366 * k"
proof (induction k rule: int_ge_induct)
  case base
  then show ?case by (simp add: DayFromYear_1970)
next
  case (step i)
  have "DayFromYear (1970 + (i + 1)) = DayFromYear ((1970 + i) + 1)" by (simp add: add.assoc)
  also have "\<dots> \<le> DayFromYear (1970 + i) + 366" by (simp only: DayFromYear_Suc) simp
  finally show ?case using step by simp
qed

lemma DayFromYear_lower: "k \<le> 0 \<Longrightarrow> DayFromYear (1970 + k) \<le> 365 * k"
proof (induction k rule: int_le_induct)
  case base
  then show ?case by (simp add: DayFromYear_1970)
next
  case (step i)
  have "DayFromYear (1970 + i) = DayFromYear ((1970 + (i - 1)) + 1)" by simp
  also have "\<dots> \<ge> DayFromYear (1970 + (i - 1)) + 365" by (simp only: DayFromYear_Suc) simp
  finally show ?case using step by simp
qed

lemma YearFromDay_correct:
  "DayFromYear (YearFromDay d) \<le> d \<and> d < DayFromYear (YearFromDay d + 1)"
proof -
  have "DayFromYear (1970 + (if d \<ge> 0 then d div 366 else d div 365)) \<le> d"
  proof (cases "d \<ge> 0")
    case True
    then have "0 \<le> d div 366" by (simp add: pos_imp_zdiv_nonneg_iff)
    from DayFromYear_upper[OF this] have "DayFromYear (1970 + d div 366) \<le> 366 * (d div 366)" .
    also have "\<dots> \<le> d" by simp
    finally show ?thesis using True by simp
  next
    case False
    then have "d div 365 \<le> 0" by (simp add: div_int_pos_iff not_le zdiv_mono1 order_less_imp_le)
    from DayFromYear_lower[OF this] have "DayFromYear (1970 + d div 365) \<le> 365 * (d div 365)" .
    also have "\<dots> \<le> d" by simp
    finally show ?thesis using False by simp
  qed
  from YearFromDay_search_correct[OF this] show ?thesis by (simp add: YearFromDay_def)
qed

lemma DayFromYear_mono: "y \<le> y' \<Longrightarrow> DayFromYear y \<le> DayFromYear y'"
proof (induction y' rule: int_ge_induct)
  case base
  then show ?case by simp
next
  case (step i)
  have "DayFromYear i \<le> DayFromYear (i + 1)" by (simp add: DayFromYear_Suc)
  with step show ?case by simp
qed

lemma YearFromDay_unique:
  assumes "DayFromYear y \<le> d" "d < DayFromYear (y + 1)"
  shows "YearFromDay d = y"
proof (rule ccontr)
  assume ne: "YearFromDay d \<noteq> y"
  let ?Y = "YearFromDay d"
  from YearFromDay_correct[of d] have Y: "DayFromYear ?Y \<le> d" "d < DayFromYear (?Y + 1)" by simp_all
  from ne consider "?Y + 1 \<le> y" | "y + 1 \<le> ?Y" by linarith
  then show False
  proof cases
    case 1
    from DayFromYear_mono[OF this] assms(1) Y(2) show False by simp
  next
    case 2
    from DayFromYear_mono[OF this] assms(2) Y(1) show False by simp
  qed
qed

lemma YearFromDay_ge: "DayFromYear y \<le> d \<Longrightarrow> y \<le> YearFromDay d"
proof (rule ccontr)
  assume a: "DayFromYear y \<le> d" and "\<not> y \<le> YearFromDay d"
  then have "YearFromDay d + 1 \<le> y" by simp
  from DayFromYear_mono[OF this] a YearFromDay_correct[of d] show False by simp
qed


lemma ceiling_week: "\<lceil>(real_of_int n + 1) / 7\<rceil> = n div 7 + 1"
proof -
  have "(real_of_int n + 1) / 7 = real_of_int (n + 1) / real_of_int 7" by simp
  then have "\<lceil>(real_of_int n + 1) / 7\<rceil> = - (- (n + 1) div 7)"
    by (simp only: ceiling_divide_eq_div)
  also have "\<dots> = n div 7 + 1" by presburger
  finally show ?thesis .
qed

lemma daysBeforeMonth_nonneg:
  assumes "0 \<le> m" "m \<le> 11"
  shows "0 \<le> daysBeforeMonth y m"
proof -
  from assms have "m = 0 \<or> m = 1 \<or> m = 2 \<or> m = 3 \<or> m = 4 \<or> m = 5 \<or> m = 6 \<or> m = 7
      \<or> m = 8 \<or> m = 9 \<or> m = 10 \<or> m = 11" by arith
  then show ?thesis by (auto simp: daysBeforeMonth_def)
qed

lemma dayOf_eq:
  assumes "100 \<le> getFullYear dte" "0 \<le> getMonth dte" "getMonth dte \<le> 11"
  shows "dayOf dte = DayFromYear (getFullYear dte)
           + daysBeforeMonth (getFullYear dte) (getMonth dte) + getDate dte - 1"
proof -
  from assms(2,3) have "getMonth dte div 12 = 0" "getMonth dte mod 12 = getMonth dte" by simp_all
  with assms(1) show ?thesis
    by (simp add: dayOf_def Date_UTC_def MakeDay_def msPerDay_def Let_def)
qed

lemma thursdayOf_props:
  "WeekDay (thursdayOf day) = 4" "WeekDay (thursdayOf day - 3) = 1"
  "thursdayOf day - 3 \<le> day" "day \<le> thursdayOf day + 3"
proof -
  define q where "q = (day + 4) div 7"
  define w where "w = (day + 4) mod 7"
  have eq: "day + 4 = 7 * q + w" and w: "0 \<le> w" "w < 7"
    by (simp_all add: q_def w_def)
  define k where "k = (if w = 0 then q - 1 else q)"
  have wd: "WeekDay day = w" by (simp add: WeekDay_def w_def)
  have thu: "thursdayOf day = 7 * k"
    unfolding thursdayOf_def wd k_def using eq by (cases "w = 0") simp_all
  have "(7 * k + 4) mod 7 = 4" "(7 * k - 3 + 4) mod 7 = 1"
    by simp_all
  then show "WeekDay (thursdayOf day) = 4" "WeekDay (thursdayOf day - 3) = 1"
    by (simp_all add: thu WeekDay_def)
  show "thursdayOf day - 3 \<le> day" "day \<le> thursdayOf day + 3"
    using eq w by (simp_all add: thu k_def split: if_splits)
qed

lemma getWeekNumber_eq:
  assumes "100 < getFullYear dte" "0 \<le> getMonth dte" "getMonth dte \<le> 11" "1 \<le> getDate dte"
  shows "getWeekNumber dte =
           (YearFromDay (thursdayOf (dayOf dte)),
            (thursdayOf (dayOf dte) - DayFromYear (YearFromDay (thursdayOf (dayOf dte)))) div 7 + 1)"
proof -
  let ?day = "dayOf dte" and ?thu = "thursdayOf (dayOf dte)"
  let ?Y = "YearFromDay ?thu"
  let ?d = "Date_UTC (getFullYear dte) (getMonth dte) (getDate dte)"
  have d: "?d = ?day * msPerDay"
    by (simp add: dayOf_def Date_UTC_def msPerDay_def)
  have wd: "getUTCDay (?day * msPerDay) = WeekDay ?day"
    by (simp add: getUTCDay_def WeekDay_def msPerDay_def)
  have d': "addUTCDate ?d (4 - (if getUTCDay ?d = 0 then 7 else getUTCDay ?d)) = ?thu * msPerDay"
    unfolding d wd by (simp add: addUTCDate_def thursdayOf_def algebra_simps)
  have y: "getUTCFullYear (?thu * msPerDay) = ?Y"
    by (simp add: getUTCFullYear_def msPerDay_def)
  have "DayFromYear 101 \<le> DayFromYear (getFullYear dte)"
    using assms(1) by (intro DayFromYear_mono) simp
  moreover have "DayFromYear 101 = DayFromYear 100 + 365"
    using DayFromYear_Suc[of 100] by (simp add: InLeapYear_def)
  moreover have "DayFromYear (getFullYear dte) \<le> ?day"
    using dayOf_eq[of dte] daysBeforeMonth_nonneg[OF assms(2,3), of "getFullYear dte"] assms
    by simp
  ultimately have "DayFromYear 100 \<le> ?thu" using thursdayOf_props(4)[of ?day] by linarith
  then have Y100: "100 \<le> ?Y" by (rule YearFromDay_ge)
  then have ys: "Date_UTC ?Y 0 1 = DayFromYear ?Y * msPerDay"
    by (simp add: Date_UTC_def MakeDay_def daysBeforeMonth_def)
  have "?thu * msPerDay - DayFromYear ?Y * msPerDay = (?thu - DayFromYear ?Y) * 86400000"
    by (simp add: msPerDay_def algebra_simps)
  then have "real_of_int (?thu * msPerDay - DayFromYear ?Y * msPerDay) / 86400000
          = real_of_int (?thu - DayFromYear ?Y)"
    by (simp only: of_int_mult of_int_numeral) simp
  then have w: "\<lceil>(real_of_int (?thu * msPerDay - DayFromYear ?Y * msPerDay) / 86400000 + 1) / 7\<rceil>
          = (?thu - DayFromYear ?Y) div 7 + 1"
    by (simp only: ceiling_week)
  show ?thesis
    unfolding getWeekNumber_def Let_def d' y ys w ..
qed

lemma DayFromYear_values:
  "DayFromYear 2024 = 19723" "DayFromYear 2025 = 20089" "DayFromYear 2026 = 20454"
  by (simp_all add: DayFromYear_def)

lemma YearFromDay_20090: "YearFromDay 20090 = 2025"
  by (rule YearFromDay_unique) (simp_all add: DayFromYear_values)

lemma week_2024_12_30:
  "getWeekNumber (dte\<lparr>getFullYear := 2024, getMonth := 11, getDate := 30\<rparr>) = (2025, 1)"
proof -
  let ?d = "dte\<lparr>getFullYear := 2024, getMonth := 11, getDate := 30\<rparr>"
  have "dayOf ?d = 20087"
    by (simp add: dayOf_eq DayFromYear_values daysBeforeMonth_def InLeapYear_def)
  then have "thursdayOf (dayOf ?d) = 20090" by (simp add: thursdayOf_def WeekDay_def)
  then show ?thesis
    by (simp add: getWeekNumber_eq YearFromDay_20090 DayFromYear_values)
qed

lemma week_2025_01_02:
  "getWeekNumber (dte\<lparr>getFullYear := 2025, getMonth := 0, getDate := 2\<rparr>) = (2025, 1)"
proof -
  let ?d = "dte\<lparr>getFullYear := 2025, getMonth := 0, getDate := 2\<rparr>"
  have "dayOf ?d = 20090"
    by (simp add: dayOf_eq DayFromYear_values daysBeforeMonth_def InLeapYear_def)
  then have "thursdayOf (dayOf ?d) = 20090" by (simp add: thursdayOf_def WeekDay_def)
  then show ?thesis
    by (simp add: getWeekNumber_eq YearFromDay_20090 DayFromYear_values)
qed


text \<open>
  Claim C9.  For a calendar date after the year 100 (\<open>Date.UTC\<close> reads the years 0 to 99
  as 1900 to 1999), \<open>getWeekNumber\<close> depends on the date only through the Thursday of its
  Monday-to-Sunday week: the year is the calendar year of that Thursday, and the week is
  one more than the number of whole weeks between the first day of that year and the
  Thursday.  2024-12-30 and 2025-01-02 both give \<open>(2025, 1)\<close>.
\<close>

theorem getWeekNumber_iso:
  assumes "100 < getFullYear dte" "0 \<le> getMonth dte" "getMonth dte \<le> 11" "1 \<le> getDate dte"
  shows "getWeekNumber dte =
           (YearFromDay (thursdayOf (dayOf dte)),
            (thursdayOf (dayOf dte) - DayFromYear (YearFromDay (thursdayOf (dayOf dte)))) div 7 + 1)
    \<and> WeekDay (thursdayOf (dayOf dte)) = 4
    \<and> WeekDay (thursdayOf (dayOf dte) - 3) = 1
    \<and> thursdayOf (dayOf dte) - 3 \<le> dayOf dte \<and> dayOf dte \<le> thursdayOf (dayOf dte) + 3
    \<and> DayFromYear (YearFromDay (thursdayOf (dayOf dte))) \<le> thursdayOf (dayOf dte)
    \<and> thursdayOf (dayOf dte) < DayFromYear (YearFromDay (thursdayOf (dayOf dte)) + 1)
    \<and> getWeekNumber (dte\<lparr>getFullYear := 2024, getMonth := 11, getDate := 30\<rparr>) = (2025, 1)
    \<and> getWeekNumber (dte\<lparr>getFullYear := 2025, getMonth := 0, getDate := 2\<rparr>) = (2025, 1)"
  using getWeekNumber_eq[OF assms] thursdayOf_props[of "dayOf dte"]
    YearFromDay_correct[of "thursdayOf (dayOf dte)"] week_2024_12_30[of dte] week_2025_01_02[of dte]
  by (intro conjI) (simp_all only:)

theorem getWeekNumber_iso_witness:
  "100 < getFullYear example_date \<and> 0 \<le> getMonth example_date \<and> getMonth example_date \<le> 11
   \<and> 1 \<le> getDate example_date
   \<and> dayOf example_date = 18630 \<and> thursdayOf (dayOf example_date) = 18627
   \<and> getWeekNumber example_date = (2020, 53)"
proof -
  have h: "100 < getFullYear example_date" "0 \<le> getMonth example_date"
    "getMonth example_date \<le> 11" "1 \<le> getDate example_date"
    by (simp_all add: example_date_def)
  have d: "dayOf example_date = 18630"
    by (simp add: dayOf_eq example_date_def DayFromYear_def daysBeforeMonth_def)
  then have t: "thursdayOf (dayOf example_date) = 18627"
    by (simp add: thursdayOf_def WeekDay_def)
  have y: "YearFromDay 18627 = 2020"
    by (rule YearFromDay_unique) (simp_all add: DayFromYear_def)
  from getWeekNumber_iso[OF h] have "getWeekNumber example_date = (2020, 53)"
    by (simp add: t y DayFromYear_def)
  with h d t show ?thesis by simp
qed


section \<open>The outreach ledger\<close>

lemma recordOutreach_category_totals:
  "totalSent (recordOutreach_category em rm) = totalSent rm"
  "totalResponses (recordOutreach_category em rm) = totalResponses rm"
  "rm_responseRate (recordOutreach_category em rm) = rm_responseRate rm"
  by (simp_all add: recordOutreach_category_def Let_def)

lemma recordOutreach_weekly_totals:
  "totalSent (recordOutreach_weekly now rm) = totalSent rm"
  "totalResponses (recordOutreach_weekly now rm) = totalResponses rm"
  "rm_responseRate (recordOutreach_weekly now rm) = rm_responseRate rm"
  by (simp_all add: recordOutreach_weekly_def Let_def split: option.splits)

lemma recordResponse_category_totals:
  "totalSent (recordResponse_category c rm) = totalSent rm"
  "totalResponses (recordResponse_category c rm) = totalResponses rm"
  "rm_responseRate (recordResponse_category c rm) = rm_responseRate rm"
  by (simp_all add: recordResponse_category_def Let_def split: option.splits)

lemma recordResponse_weekly_totals:
  "totalSent (recordResponse_weekly rd rm) = totalSent rm"
  "totalResponses (recordResponse_weekly rd rm) = totalResponses rm"
  "rm_responseRate (recordResponse_weekly rd rm) = rm_responseRate rm"
  by (simp_all add: recordResponse_weekly_def Let_def split: option.splits)

lemmas totals = recordOutreach_category_totals recordOutreach_weekly_totals
  recordResponse_category_totals recordResponse_weekly_totals

lemma recordOutreach_outreachStatus:
  "outreachStatus (recordOutreach em now td)
     = (outreachStatus td)
         (email_contactId em \<mapsto> recordOutreach_status em now (outreachStatus td (email_contactId em)))"
  by (simp add: recordOutreach_def Let_def)

lemma recordOutreach_totalSent:
  "totalSent (responseMetrics (recordOutreach em now td)) = totalSent (responseMetrics td) + 1"
  "totalResponses (responseMetrics (recordOutreach em now td)) = totalResponses (responseMetrics td)"
  by (simp_all add: recordOutreach_def Let_def totals)

lemma findContact_Some:
  "findContact signature codes = Some contactId \<Longrightarrow>
   \<exists>id' code n. (id', code) \<in> set codes
      \<and> parseInt (replace_first contact_prefix [] id') = Some n
      \<and> decodeStealthSignature signature (signatureChunks code) = n
      \<and> contactId = contact_prefix @ show_int n"
proof (induction codes)
  case Nil
  then show ?case by simp
next
  case (Cons p codes)
  obtain id' code where p: "p = (id', code)" by (cases p)
  show ?case
  proof (cases "parseInt (replace_first contact_prefix [] id')
                  = Some (decodeStealthSignature signature (signatureChunks code))")
    case True
    with Cons.prems p
    have "contactId = contact_prefix @ show_int (decodeStealthSignature signature (signatureChunks code))"
      by (simp add: Let_def)
    with True p show ?thesis by auto
  next
    case False
    with Cons.prems p have "findContact signature codes = Some contactId"
      by (simp add: Let_def)
    from Cons.IH[OF this] show ?thesis by auto
  qed
qed

lemma recordResponse_found:
  assumes "findContact signature (trackingCodes td) = Some contactId"
    and "outreachStatus td contactId = Some r"
  shows "\<exists>td'. recordResponse signature rd td = Inr (td', contactId)
      \<and> outreachStatus td' = (outreachStatus td)(contactId \<mapsto> recordResponse_status rd r)
      \<and> trackingCodes td' = trackingCodes td
      \<and> totalResponses (responseMetrics td') = totalResponses (responseMetrics td) + 1
      \<and> totalSent (responseMetrics td') = totalSent (responseMetrics td)
      \<and> rm_responseRate (responseMetrics td')
           = js_div (totalResponses (responseMetrics td) + 1) (totalSent (responseMetrics td))"
  using assms by (simp add: recordResponse_def Let_def totals)

text \<open>
  Claim C7.  When the loop of \<open>recordResponse\<close> resolves the signature to a contact id
  (some tracking code's own number equals the number decoded with its chunks, and the id
  is \<open>contact_\<close> followed by that number), then without an outreach record for that id the
  call fails with the \<open>No outreach record found\<close> error; with a record \<open>r\<close> it returns, the
  record has \<open>responded = true\<close>, the response date and the response time in days
  \<open>(responseDate - lastOutreachDate) / 86400000\<close>, \<open>totalResponses\<close> is one more, and
  \<open>responseRate\<close> is \<open>totalResponses / totalSent\<close>.
\<close>

theorem response_correlation:
  assumes "findContact signature (trackingCodes td) = Some contactId"
  shows "(\<exists>id' code n. (id', code) \<in> set (trackingCodes td)
            \<and> parseInt (replace_first contact_prefix [] id') = Some n
            \<and> decodeStealthSignature signature (signatureChunks code) = n
            \<and> contactId = contact_prefix @ show_int n)
    \<and> (outreachStatus td contactId = None \<longrightarrow>
          recordResponse signature rd td = Inl (NoOutreachRecord contactId))
    \<and> (\<forall>r. outreachStatus td contactId = Some r \<longrightarrow>
          (\<exists>td'. recordResponse signature rd td = Inr (td', contactId)
             \<and> outreachStatus td' contactId
                 = Some (r\<lparr>responded := True, responseDate := Some (getTime rd),
                           responseTime :=
                             Some (real_of_int (getTime rd - lastOutreachDate r) / 86400000)\<rparr>)
             \<and> totalResponses (responseMetrics td') = totalResponses (responseMetrics td) + 1
             \<and> totalSent (responseMetrics td') = totalSent (responseMetrics td)
             \<and> rm_responseRate (responseMetrics td')
                 = js_div (totalResponses (responseMetrics td) + 1) (totalSent (responseMetrics td))
             \<and> (totalSent (responseMetrics td) \<noteq> 0 \<longrightarrow>
                  rm_responseRate (responseMetrics td')
                    = Some (real_of_int (totalResponses (responseMetrics td'))
                              / real_of_int (totalSent (responseMetrics td'))))))"
proof (intro conjI impI allI)
  show "\<exists>id' code n. (id', code) \<in> set (trackingCodes td)
            \<and> parseInt (replace_first contact_prefix [] id') = Some n
            \<and> decodeStealthSignature signature (signatureChunks code) = n
            \<and> contactId = contact_prefix @ show_int n"
    using assms by (rule findContact_Some)
next
  assume "outreachStatus td contactId = None"
  with assms show "recordResponse signature rd td = Inl (NoOutreachRecord contactId)"
    by (simp add: recordResponse_def)
next
  fix r
  assume r: "outreachStatus td contactId = Some r"
  from recordResponse_found[OF assms r, of rd] obtain td' where
    td': "recordResponse signature rd td = Inr (td', contactId)"
      "outreachStatus td' = (outreachStatus td)(contactId \<mapsto> recordResponse_status rd r)"
      "totalResponses (responseMetrics td') = totalResponses (responseMetrics td) + 1"
      "totalSent (responseMetrics td') = totalSent (responseMetrics td)"
      "rm_responseRate (responseMetrics td')
           = js_div (totalResponses (responseMetrics td) + 1) (totalSent (responseMetrics td))"
    by blast
  have "outreachStatus td' contactId
          = Some (r\<lparr>responded := True, responseDate := Some (getTime rd),
                    responseTime := Some (real_of_int (getTime rd - lastOutreachDate r) / 86400000)\<rparr>)"
    by (simp add: td'(2) recordResponse_status_def)
  moreover have "totalSent (responseMetrics td) \<noteq> 0 \<longrightarrow>
      rm_responseRate (responseMetrics td')
        = Some (real_of_int (totalResponses (responseMetrics td'))
                  / real_of_int (totalSent (responseMetrics td')))"
    by (simp add: td'(3,4,5) js_div_def)
  ultimately show "\<exists>td'. recordResponse signature rd td = Inr (td', contactId)
             \<and> outreachStatus td' contactId
                 = Some (r\<lparr>responded := True, responseDate := Some (getTime rd),
                           responseTime :=
                             Some (real_of_int (getTime rd - lastOutreachDate r) / 86400000)\<rparr>)
             \<and> totalResponses (responseMetrics td') = totalResponses (responseMetrics td) + 1
             \<and> totalSent (responseMetrics td') = totalSent (responseMetrics td)
             \<and> rm_responseRate (responseMetrics td')
                 = js_div (totalResponses (responseMetrics td) + 1) (totalSent (responseMetrics td))
             \<and> (totalSent (responseMetrics td) \<noteq> 0 \<longrightarrow>
                  rm_responseRate (responseMetrics td')
                    = Some (real_of_int (totalResponses (responseMetrics td'))
                              / real_of_int (totalSent (responseMetrics td'))))"
    using td'(1,3,4,5) by blast
qed


lemma contact_1_text: "contact_prefix @ show_int 1 = str ''contact_1''"
  by (simp add: contact_prefix_def show_int_def show_nat.simps str_def)

lemma contact_1_number: "parseInt (replace_first contact_prefix [] (str ''contact_1'')) = Some 1"
  by (simp add: contact_prefix_def str_def parseInt_def isWhiteSpace_def isDigit_def
        digitsValue_def)

lemma example_signature_decodes: "decodeStealthSignature example_signature defaultChunks = 1"
  by (simp add: decodeStealthSignature_def separatorIndices_default charAt_def SEPARATORS_def
        example_signature_def str_def)

lemma after_outreach_codes:
  "findContact example_signature (trackingCodes after_outreach) = Some (str ''contact_1'')"
  by (simp add: after_outreach_def recordOutreach_def Let_def empty_tracking_def
        example_email_def contact_1_number example_signature_decodes contact_1_text)

lemma after_outreach_status:
  "outreachStatus after_outreach (str ''contact_1'')
     = Some \<lparr>lastOutreachDate = 1735516800000, outreachCount = 1,
             lastEmailSubject = str ''Hello'', lastEmailTo = str ''a@b.com'', responded = False,
             responseDate = None, responseTime = None\<rparr>"
  by (simp add: after_outreach_def recordOutreach_outreachStatus recordOutreach_status_def
        empty_tracking_def example_email_def outreach_time_def)

lemma after_outreach_totals:
  "totalSent (responseMetrics after_outreach) = 1"
  "totalResponses (responseMetrics after_outreach) = 0"
  by (simp_all add: after_outreach_def recordOutreach_totalSent empty_tracking_def)

theorem response_correlation_witness:
  "findContact example_signature (trackingCodes after_outreach) = Some (str ''contact_1'')
   \<and> (\<exists>td'. recordResponse example_signature response_time after_outreach
                = Inr (td', str ''contact_1'')
        \<and> outreachStatus td' (str ''contact_1'')
            = Some \<lparr>lastOutreachDate = 1735516800000, outreachCount = 1,
                    lastEmailSubject = str ''Hello'', lastEmailTo = str ''a@b.com'',
                    responded = True, responseDate = Some 1735776000000,
                    responseTime = Some 3\<rparr>
        \<and> totalSent (responseMetrics td') = 1
        \<and> totalResponses (responseMetrics td') = 1
        \<and> rm_responseRate (responseMetrics td') = Some 1)"
proof -
  from response_correlation[OF after_outreach_codes, of response_time] after_outreach_status
  obtain td' where
    "recordResponse example_signature response_time after_outreach = Inr (td', str ''contact_1'')"
    "outreachStatus td' (str ''contact_1'')
       = Some (\<lparr>lastOutreachDate = 1735516800000, outreachCount = 1,
                 lastEmailSubject = str ''Hello'', lastEmailTo = str ''a@b.com'', responded = False,
                 responseDate = None, responseTime = None\<rparr>
               \<lparr>responded := True, responseDate := Some (getTime response_time),
                responseTime := Some (real_of_int (getTime response_time - 1735516800000) / 86400000)\<rparr>)"
    "totalResponses (responseMetrics td') = totalResponses (responseMetrics after_outreach) + 1"
    "totalSent (responseMetrics td') = totalSent (responseMetrics after_outreach)"
    "rm_responseRate (responseMetrics td')
       = js_div (totalResponses (responseMetrics after_outreach) + 1)
           (totalSent (responseMetrics after_outreach))"
    by auto
  then show ?thesis
    using after_outreach_codes
    by (simp add: after_outreach_totals js_div_def response_time_def)
qed

lemma recordResponse_keeps_responded:
  assumes "recordResponse signature rd td = Inr (td', cid)"
    and "outreachStatus td c = Some r" and "responded r"
  shows "\<exists>r'. outreachStatus td' c = Some r' \<and> responded r'"
proof -
  from assms(1) obtain r0 where
    f: "findContact signature (trackingCodes td) = Some cid" and r0: "outreachStatus td cid = Some r0"
    by (auto simp: recordResponse_def Let_def split: option.splits)
  from recordResponse_found[OF f r0, of rd] assms(1)
  have "outreachStatus td' = (outreachStatus td)(cid \<mapsto> recordResponse_status rd r0)" by auto
  with assms(2,3) show ?thesis
    by (cases "c = cid") (simp_all add: recordResponse_status_def)
qed

text \<open>
  Claim C3 as the code has it.  A \<open>recordResponse\<close> that returns sets \<open>responded\<close> to
  true (with the response date and time) in the record of the resolved contact and leaves
  the record of every other contact as it is, so it never turns \<open>responded\<close> from true to
  false.  \<open>recordOutreach\<close> leaves the records of the other contacts as they are, and for
  the contact of the email it counts the send, stores the time of the send and sets
  \<open>responded\<close> to false and \<open>responseDate\<close> to null.
\<close>

theorem responded_transitions:
  "(recordResponse signature rd td = Inr (td', cid) \<longrightarrow>
      (\<exists>r0. outreachStatus td cid = Some r0
         \<and> outreachStatus td' cid
             = Some (r0\<lparr>responded := True, responseDate := Some (getTime rd),
                        responseTime :=
                          Some (real_of_int (getTime rd - lastOutreachDate r0) / 86400000)\<rparr>))
      \<and> (c \<noteq> cid \<longrightarrow> outreachStatus td' c = outreachStatus td c)
      \<and> (outreachStatus td c = Some r \<and> responded r
           \<longrightarrow> (\<exists>r'. outreachStatus td' c = Some r' \<and> responded r')))
   \<and> (c \<noteq> email_contactId em \<longrightarrow>
        outreachStatus (recordOutreach em now td) c = outreachStatus td c)
   \<and> (\<exists>r'. outreachStatus (recordOutreach em now td) (email_contactId em) = Some r'
        \<and> \<not> responded r' \<and> responseDate r' = None \<and> lastOutreachDate r' = getTime now
        \<and> outreachCount r'
            = (case outreachStatus td (email_contactId em) of None \<Rightarrow> 0
               | Some r0 \<Rightarrow> outreachCount r0) + 1)"
proof (intro conjI impI)
  assume ret: "recordResponse signature rd td = Inr (td', cid)"
  then obtain r0 where
    f: "findContact signature (trackingCodes td) = Some cid" and r0: "outreachStatus td cid = Some r0"
    by (auto simp: recordResponse_def Let_def split: option.splits)
  from recordResponse_found[OF f r0, of rd] ret
  have st: "outreachStatus td' = (outreachStatus td)(cid \<mapsto> recordResponse_status rd r0)" by auto
  show "\<exists>r0. outreachStatus td cid = Some r0
         \<and> outreachStatus td' cid
             = Some (r0\<lparr>responded := True, responseDate := Some (getTime rd),
                        responseTime :=
                          Some (real_of_int (getTime rd - lastOutreachDate r0) / 86400000)\<rparr>)"
    using r0 by (simp add: st recordResponse_status_def)
  show "outreachStatus td' c = outreachStatus td c" if "c \<noteq> cid"
    using that by (simp add: st)
  show "\<exists>r'. outreachStatus td' c = Some r' \<and> responded r'"
    if "outreachStatus td c = Some r \<and> responded r"
    using that ret recordResponse_keeps_responded by blast
next
  assume "c \<noteq> email_contactId em"
  then show "outreachStatus (recordOutreach em now td) c = outreachStatus td c"
    by (simp add: recordOutreach_outreachStatus)
next
  show "\<exists>r'. outreachStatus (recordOutreach em now td) (email_contactId em) = Some r'
        \<and> \<not> responded r' \<and> responseDate r' = None \<and> lastOutreachDate r' = getTime now
        \<and> outreachCount r'
            = (case outreachStatus td (email_contactId em) of None \<Rightarrow> 0
               | Some r0 \<Rightarrow> outreachCount r0) + 1"
    by (simp add: recordOutreach_outreachStatus recordOutreach_status_def)
qed

lemma after_response_eq:
  "recordResponse example_signature response_time after_outreach
     = Inr (after_response, str ''contact_1'')"
proof -
  from recordResponse_found[OF after_outreach_codes after_outreach_status, of response_time]
  obtain td' where
    "recordResponse example_signature response_time after_outreach = Inr (td', str ''contact_1'')"
    by blast
  then show ?thesis by (simp add: after_response_def)
qed

lemma after_response_status:
  "outreachStatus after_response (str ''contact_1'')
     = Some \<lparr>lastOutreachDate = 1735516800000, outreachCount = 1,
             lastEmailSubject = str ''Hello'', lastEmailTo = str ''a@b.com'', responded = True,
             responseDate = Some 1735776000000, responseTime = Some 3\<rparr>"
proof -
  from recordResponse_found[OF after_outreach_codes after_outreach_status, of response_time]
    after_response_eq
  have "outreachStatus after_response
          = (outreachStatus after_outreach)
              (str ''contact_1'' \<mapsto> recordResponse_status response_time
                 \<lparr>lastOutreachDate = 1735516800000, outreachCount = 1,
                  lastEmailSubject = str ''Hello'', lastEmailTo = str ''a@b.com'',
                  responded = False, responseDate = None, responseTime = None\<rparr>)"
    by auto
  then show ?thesis by (simp add: recordResponse_status_def response_time_def)
qed

text \<open>
  Claim C3 says that \<open>responded\<close> never returns to false.  \<open>recordOutreach\<close> writes
  \<open>responded: false\<close> on every call: after the reply \<open>contact_1\<close> has responded, and after the
  second send it has not, with \<open>outreachCount\<close> 2.
\<close>

theorem responded_reset_counterexample:
  "map_option responded (outreachStatus after_response (str ''contact_1'')) = Some True
   \<and> map_option responded (outreachStatus second_outreach (str ''contact_1'')) = Some False
   \<and> map_option outreachCount (outreachStatus second_outreach (str ''contact_1'')) = Some 2"
  by (simp add: after_response_status second_outreach_def recordOutreach_outreachStatus
        recordOutreach_status_def example_email_def)

theorem responded_transitions_witness:
  "recordResponse example_signature response_time after_outreach
     = Inr (after_response, str ''contact_1'')
   \<and> outreachStatus after_response (str ''contact_1'')
       = Some \<lparr>lastOutreachDate = 1735516800000, outreachCount = 1,
               lastEmailSubject = str ''Hello'', lastEmailTo = str ''a@b.com'', responded = True,
               responseDate = Some 1735776000000, responseTime = Some 3\<rparr>
   \<and> str ''contact_2'' \<noteq> str ''contact_1''
   \<and> outreachStatus after_response (str ''contact_2'')
       = outreachStatus after_outreach (str ''contact_2'')
   \<and> (\<exists>td' r'. recordResponse example_signature response_time after_response
                   = Inr (td', str ''contact_1'')
          \<and> outreachStatus td' (str ''contact_1'') = Some r' \<and> responded r')
   \<and> str ''contact_2'' \<noteq> email_contactId example_email
   \<and> outreachStatus (recordOutreach example_email response_time after_response) (str ''contact_2'')
       = outreachStatus after_response (str ''contact_2'')
   \<and> (\<exists>r'. outreachStatus (recordOutreach example_email response_time after_response)
               (email_contactId example_email) = Some r'
        \<and> \<not> responded r' \<and> responseDate r' = None
        \<and> lastOutreachDate r' = getTime response_time \<and> outreachCount r' = 2)"
proof -
  have codes: "findContact example_signature (trackingCodes after_response) = Some (str ''contact_1'')"
    using recordResponse_found[OF after_outreach_codes after_outreach_status, of response_time]
      after_response_eq after_outreach_codes by auto
  from recordResponse_found[OF codes after_response_status, of response_time]
  obtain td2 where td2: "recordResponse example_signature response_time after_response
                   = Inr (td2, str ''contact_1'')" by blast
  have ne: "str ''contact_2'' \<noteq> email_contactId example_email"
    by (simp add: example_email_def str_def)
  have ne': "str ''contact_2'' \<noteq> str ''contact_1''" by (simp add: str_def)
  have id1: "email_contactId example_email = str ''contact_1''" by (simp add: example_email_def)
  define r1 where "r1 = the (outreachStatus after_response (str ''contact_1''))"
  have r1: "outreachStatus after_response (str ''contact_1'') = Some r1" "responded r1"
    "outreachCount r1 = 1"
    by (simp_all add: r1_def after_response_status)
  note first = responded_transitions[of example_signature response_time after_outreach
      after_response "str ''contact_1''" "str ''contact_2''" r1 example_email response_time]
  from first after_response_eq after_outreach_status
  have s1: "outreachStatus after_response (str ''contact_1'')
       = Some \<lparr>lastOutreachDate = 1735516800000, outreachCount = 1,
               lastEmailSubject = str ''Hello'', lastEmailTo = str ''a@b.com'', responded = True,
               responseDate = Some 1735776000000, responseTime = Some 3\<rparr>"
    by (simp add: response_time_def)
  from first after_response_eq ne'
  have s2: "outreachStatus after_response (str ''contact_2'')
       = outreachStatus after_outreach (str ''contact_2'')" by blast
  note t = responded_transitions[of example_signature response_time after_response td2
      "str ''contact_1''" _ r1 example_email response_time]
  from t[of "str ''contact_1''"] td2 r1
  have a: "\<exists>r'. outreachStatus td2 (str ''contact_1'') = Some r' \<and> responded r'" by blast
  from t[of "str ''contact_2''"] ne
  have b: "outreachStatus (recordOutreach example_email response_time after_response) (str ''contact_2'')
       = outreachStatus after_response (str ''contact_2'')" by blast
  from t[of "str ''contact_2''"]
  have c: "\<exists>r'. outreachStatus (recordOutreach example_email response_time after_response)
               (email_contactId example_email) = Some r'
        \<and> \<not> responded r' \<and> responseDate r' = None
        \<and> lastOutreachDate r' = getTime response_time \<and> outreachCount r' = 2"
    by (simp add: id1 r1)
  from after_response_eq s1 ne' s2 td2 a ne b c show ?thesis by blast
qed

end
